theory Spec2Isabelle
  imports Main "HOL-Library.Word"
begin

section \<open>Button debouncing: the four-state engine and the two-state engine\<close>

text \<open>
  The repository holds two debouncers for one push button.
  \<^item> \<^verbatim>\<open>src/esp-idf/debounce_fsm/src/main.c\<close>: a state machine with the states
    \<^verbatim>\<open>DEBOUNCE_LOW\<close>, \<^verbatim>\<open>DEBOUNCE_RISING\<close>, \<^verbatim>\<open>DEBOUNCE_HIGH\<close>, \<^verbatim>\<open>DEBOUNCE_FALLING\<close> and one
    window for the press and one for the release.
  \<^item> \<^verbatim>\<open>src/arduino/debounce/src/main.cpp\<close>: the class \<^verbatim>\<open>SoftwareDebounce\<close> with one
    window, a flag \<^verbatim>\<open>state_changed\<close> and two accessors that read and clear the flag.

  Both read the hardware twice per call: the electrical level of the pin
  (\<^verbatim>\<open>gpio_get_level\<close>, \<^verbatim>\<open>digitalRead\<close>) and the clock (\<^verbatim>\<open>xTaskGetTickCount\<close>,
  \<^verbatim>\<open>millis\<close>). In the model these two reads are arguments of the operation: \<open>level\<close> is
  the electrical level and \<open>now\<close> the counter value. Both counters are unsigned 32-bit
  integers (\<^verbatim>\<open>uint32_t\<close>, \<^verbatim>\<open>unsigned long\<close>), here \<open>32 word\<close>, whose subtraction wraps.
\<close>

type_synonym u32 = "32 word"

subsection \<open>The four-state engine (\<^verbatim>\<open>main.c\<close>)\<close>

datatype debounce_state_t =
  DEBOUNCE_LOW | DEBOUNCE_RISING | DEBOUNCE_HIGH | DEBOUNCE_FALLING

datatype debounce_edge_t =
  DEBOUNCE_NO_EDGE | DEBOUNCE_RISING_EDGE | DEBOUNCE_FALLING_EDGE

record debounce_t =
  pin :: int
  inverted :: bool
  last_update_ticks :: u32
  press_delay_ticks :: u32
  release_delay_ticks :: u32
  state :: debounce_state_t

text \<open>\<^verbatim>\<open>raw_read\<close>: the level of the pin, negated for active-low wiring.\<close>

definition raw_read :: "bool \<Rightarrow> bool \<Rightarrow> bool" where
  "raw_read level is_inverted = (if is_inverted then \<not> level else level)"

text \<open>
  \<^verbatim>\<open>debounce_init\<close>. The macro \<^verbatim>\<open>pdMS_TO_TICKS\<close> belongs to FreeRTOS and is not part of
  the repository: it is the parameter \<open>pdMS_TO_TICKS\<close>.
\<close>

definition debounce_init ::
  "(u32 \<Rightarrow> u32) \<Rightarrow> int \<Rightarrow> bool \<Rightarrow> u32 \<Rightarrow> u32 \<Rightarrow> u32 \<Rightarrow> bool \<Rightarrow> debounce_t" where
  "debounce_init pdMS_TO_TICKS pin_no is_inverted press_delay_ms release_delay_ms now level =
     \<lparr> pin = pin_no,
       inverted = is_inverted,
       last_update_ticks = now,
       press_delay_ticks = pdMS_TO_TICKS press_delay_ms,
       release_delay_ticks = pdMS_TO_TICKS release_delay_ms,
       state = (if raw_read level is_inverted then DEBOUNCE_HIGH else DEBOUNCE_LOW) \<rparr>"

text \<open>
  \<^verbatim>\<open>debounce_update\<close>: one \<^verbatim>\<open>switch\<close> on the state; the two \<^verbatim>\<open>return\<close>s inside the
  \<^verbatim>\<open>switch\<close> and the final \<^verbatim>\<open>return DEBOUNCE_NO_EDGE\<close> are the first components of the
  results, the object after the call is the second.
\<close>

definition debounce_update :: "debounce_t \<Rightarrow> bool \<Rightarrow> u32 \<Rightarrow> debounce_edge_t \<times> debounce_t" where
  "debounce_update self level now =
     (let raw = raw_read level (inverted self) in
      case state self of
        DEBOUNCE_LOW \<Rightarrow>
          if raw
          then (DEBOUNCE_NO_EDGE, self\<lparr>state := DEBOUNCE_RISING, last_update_ticks := now\<rparr>)
          else (DEBOUNCE_NO_EDGE, self)
      | DEBOUNCE_RISING \<Rightarrow>
          if raw
          then (if now - last_update_ticks self \<ge> press_delay_ticks self
                then (DEBOUNCE_RISING_EDGE, self\<lparr>state := DEBOUNCE_HIGH\<rparr>)
                else (DEBOUNCE_NO_EDGE, self))
          else (DEBOUNCE_NO_EDGE, self\<lparr>state := DEBOUNCE_LOW\<rparr>)
      | DEBOUNCE_HIGH \<Rightarrow>
          if \<not> raw
          then (DEBOUNCE_NO_EDGE, self\<lparr>state := DEBOUNCE_FALLING, last_update_ticks := now\<rparr>)
          else (DEBOUNCE_NO_EDGE, self)
      | DEBOUNCE_FALLING \<Rightarrow>
          if \<not> raw
          then (if now - last_update_ticks self \<ge> release_delay_ticks self
                then (DEBOUNCE_FALLING_EDGE, self\<lparr>state := DEBOUNCE_LOW\<rparr>)
                else (DEBOUNCE_NO_EDGE, self))
          else (DEBOUNCE_NO_EDGE, self\<lparr>state := DEBOUNCE_HIGH\<rparr>))"

text \<open>
  The loop of \<^verbatim>\<open>debounce_task\<close> calls \<^verbatim>\<open>debounce_update\<close> once per iteration. A finite
  run of it is a list of the hardware reads \<open>(level, now)\<close>, one per iteration:
  \<open>debounce_edges\<close> lists the values returned, \<open>debounce_final\<close> is the object afterwards.
\<close>

fun debounce_edges :: "debounce_t \<Rightarrow> (bool \<times> u32) list \<Rightarrow> debounce_edge_t list" where
  "debounce_edges self [] = []"
| "debounce_edges self ((level, now) # xs) =
     fst (debounce_update self level now) # debounce_edges (snd (debounce_update self level now)) xs"

fun debounce_final :: "debounce_t \<Rightarrow> (bool \<times> u32) list \<Rightarrow> debounce_t" where
  "debounce_final self [] = self"
| "debounce_final self ((level, now) # xs) =
     debounce_final (snd (debounce_update self level now)) xs"

subsection \<open>The two-state engine (\<^verbatim>\<open>main.cpp\<close>)\<close>

text \<open>
  The fields of \<^verbatim>\<open>class SoftwareDebounce\<close>; \<^verbatim>\<open>pin\<close> and \<^verbatim>\<open>inverted\<close> carry the suffix
  \<open>_sd\<close>, the plain names being taken by the record above.
\<close>

record SoftwareDebounce =
  pin_sd :: "8 word"
  inverted_sd :: bool
  cur_state :: bool
  prev_stable_state :: bool
  last_change_time :: u32
  delay_time :: u32
  state_changed :: bool

definition read_raw_state :: "SoftwareDebounce \<Rightarrow> bool \<Rightarrow> bool" where
  "read_raw_state s raw = (if inverted_sd s then \<not> raw else raw)"

text \<open>
  The constructor; \<open>level\<close> is the level it reads to seed both states. The two state
  fields are unassigned until its last statement, which reads neither: the \<open>False\<close>
  below stands for that and is never read.
\<close>

definition SoftwareDebounce_new :: "8 word \<Rightarrow> bool \<Rightarrow> u32 \<Rightarrow> bool \<Rightarrow> SoftwareDebounce" where
  "SoftwareDebounce_new switch_pin inverted_logic debounce_delay_time level =
     (let s = \<lparr> pin_sd = switch_pin,
                inverted_sd = inverted_logic,
                cur_state = False,
                prev_stable_state = False,
                last_change_time = 0,
                delay_time = debounce_delay_time,
                state_changed = False \<rparr>
      in s\<lparr>cur_state := read_raw_state s level, prev_stable_state := read_raw_state s level\<rparr>)"

text \<open>\<^verbatim>\<open>update\<close>: the two \<^verbatim>\<open>if\<close> statements in sequence.\<close>

definition update :: "SoftwareDebounce \<Rightarrow> bool \<Rightarrow> u32 \<Rightarrow> SoftwareDebounce" where
  "update s level cur_time =
     (let raw_state = read_raw_state s level;
          s1 = (if raw_state \<noteq> cur_state s
                then s\<lparr>cur_state := raw_state, last_change_time := cur_time\<rparr>
                else s)
      in if \<not> state_changed s1 \<and> cur_time - last_change_time s1 > delay_time s1
         then (if cur_state s1 \<noteq> prev_stable_state s1
               then s1\<lparr>prev_stable_state := cur_state s1, state_changed := True\<rparr>
               else s1)
         else s1)"

text \<open>\<^verbatim>\<open>get_changed\<close> reads the flag and clears it.\<close>

definition get_changed :: "SoftwareDebounce \<Rightarrow> bool \<times> SoftwareDebounce" where
  "get_changed s = (if state_changed s then (True, s\<lparr>state_changed := False\<rparr>) else (False, s))"

text \<open>
  The accessors evaluate \<^verbatim>\<open>get_changed()\<close> first, as the left operand of \<^verbatim>\<open>&&\<close>, and
  then read \<^verbatim>\<open>prev_stable_state\<close>.
\<close>

definition get_rising_edge :: "SoftwareDebounce \<Rightarrow> bool \<times> SoftwareDebounce" where
  "get_rising_edge s =
     (let (changed, s') = get_changed s in (changed \<and> prev_stable_state s', s'))"

definition get_falling_edge :: "SoftwareDebounce \<Rightarrow> bool \<times> SoftwareDebounce" where
  "get_falling_edge s =
     (let (changed, s') = get_changed s in (changed \<and> \<not> prev_stable_state s', s'))"

subsection \<open>The transition table of the specification\<close>

text \<open>
  The table as the specification prints it, one row per state and one column per
  polarity-corrected sample \<open>r\<close>; \<open>delta\<close> is the time elapsed since the tentative state
  was entered. The result is the next state, the edge emitted and whether the timer
  is reset.
\<close>

fun spec_table ::
  "debounce_state_t \<Rightarrow> bool \<Rightarrow> u32 \<Rightarrow> u32 \<Rightarrow> u32 \<Rightarrow> debounce_state_t \<times> debounce_edge_t \<times> bool" where
  "spec_table DEBOUNCE_LOW True delta press_window release_window =
     (DEBOUNCE_RISING, DEBOUNCE_NO_EDGE, True)"
| "spec_table DEBOUNCE_LOW False delta press_window release_window =
     (DEBOUNCE_LOW, DEBOUNCE_NO_EDGE, False)"
| "spec_table DEBOUNCE_RISING True delta press_window release_window =
     (if delta \<ge> press_window then (DEBOUNCE_HIGH, DEBOUNCE_RISING_EDGE, False)
      else (DEBOUNCE_RISING, DEBOUNCE_NO_EDGE, False))"
| "spec_table DEBOUNCE_RISING False delta press_window release_window =
     (DEBOUNCE_LOW, DEBOUNCE_NO_EDGE, False)"
| "spec_table DEBOUNCE_HIGH True delta press_window release_window =
     (DEBOUNCE_HIGH, DEBOUNCE_NO_EDGE, False)"
| "spec_table DEBOUNCE_HIGH False delta press_window release_window =
     (DEBOUNCE_FALLING, DEBOUNCE_NO_EDGE, True)"
| "spec_table DEBOUNCE_FALLING True delta press_window release_window =
     (DEBOUNCE_HIGH, DEBOUNCE_NO_EDGE, False)"
| "spec_table DEBOUNCE_FALLING False delta press_window release_window =
     (if delta \<ge> release_window then (DEBOUNCE_LOW, DEBOUNCE_FALLING_EDGE, False)
      else (DEBOUNCE_FALLING, DEBOUNCE_NO_EDGE, False))"

subsection \<open>Polling the two-state engine\<close>

text \<open>
  The caller of the two-state engine sees an edge only through the accessors. A call
  sequence of the polling thread is a list of accessor names; \<open>accessor_results\<close> lists
  what the calls return, in order, and \<open>accessor_final\<close> is the object afterwards.
\<close>

datatype accessor = GET_RISING_EDGE | GET_FALLING_EDGE

definition call_accessor :: "accessor \<Rightarrow> SoftwareDebounce \<Rightarrow> bool \<times> SoftwareDebounce" where
  "call_accessor a s =
     (case a of GET_RISING_EDGE \<Rightarrow> get_rising_edge s | GET_FALLING_EDGE \<Rightarrow> get_falling_edge s)"

fun accessor_results :: "SoftwareDebounce \<Rightarrow> accessor list \<Rightarrow> bool list" where
  "accessor_results s [] = []"
| "accessor_results s (a # as) =
     fst (call_accessor a s) # accessor_results (snd (call_accessor a s)) as"

fun accessor_final :: "SoftwareDebounce \<Rightarrow> accessor list \<Rightarrow> SoftwareDebounce" where
  "accessor_final s [] = s"
| "accessor_final s (a # as) = accessor_final (snd (call_accessor a s)) as"

text \<open>The edge an accessor stands for, and the accessor that stands for a confirmed state.\<close>

definition edge_of_accessor :: "accessor \<Rightarrow> debounce_edge_t" where
  "edge_of_accessor a =
     (case a of GET_RISING_EDGE \<Rightarrow> DEBOUNCE_RISING_EDGE | GET_FALLING_EDGE \<Rightarrow> DEBOUNCE_FALLING_EDGE)"

definition accessor_of_state :: "bool \<Rightarrow> accessor" where
  "accessor_of_state confirmed = (if confirmed then GET_RISING_EDGE else GET_FALLING_EDGE)"

text \<open>
  One iteration of a polling loop in the shape of \<^verbatim>\<open>loop()\<close>: \<^verbatim>\<open>update()\<close>, then the
  accessors \<open>accs\<close> in order. The edge reported is that of the first accessor that
  returned true, \<^verbatim>\<open>DEBOUNCE_NO_EDGE\<close> when none did. \<^verbatim>\<open>loop()\<close> itself is
  \<open>poll [GET_RISING_EDGE]\<close>.
\<close>

fun reported_edge :: "accessor list \<Rightarrow> bool list \<Rightarrow> debounce_edge_t" where
  "reported_edge (a # as) (b # bs) = (if b then edge_of_accessor a else reported_edge as bs)"
| "reported_edge as bs = DEBOUNCE_NO_EDGE"

definition poll ::
  "accessor list \<Rightarrow> SoftwareDebounce \<Rightarrow> bool \<Rightarrow> u32 \<Rightarrow> debounce_edge_t \<times> SoftwareDebounce" where
  "poll accs s level now =
     (let s1 = update s level now
      in (reported_edge accs (accessor_results s1 accs), accessor_final s1 accs))"

fun poll_edges :: "accessor list \<Rightarrow> SoftwareDebounce \<Rightarrow> (bool \<times> u32) list \<Rightarrow> debounce_edge_t list" where
  "poll_edges accs s [] = []"
| "poll_edges accs s ((level, now) # xs) =
     fst (poll accs s level now) # poll_edges accs (snd (poll accs s level now)) xs"

fun poll_final :: "accessor list \<Rightarrow> SoftwareDebounce \<Rightarrow> (bool \<times> u32) list \<Rightarrow> SoftwareDebounce" where
  "poll_final accs s [] = s"
| "poll_final accs s ((level, now) # xs) = poll_final accs (snd (poll accs s level now)) xs"

text \<open>
  \<^verbatim>\<open>loop()\<close> of \<^verbatim>\<open>main.cpp\<close>, on the two globals \<^verbatim>\<open>debouncer\<close> and \<^verbatim>\<open>led_state\<close>; the writes
  to the pin and to the serial port are left out.
\<close>

definition loop :: "SoftwareDebounce \<times> bool \<Rightarrow> bool \<Rightarrow> u32 \<Rightarrow> SoftwareDebounce \<times> bool" where
  "loop globals level now =
     (let (debouncer, led_state) = globals;
          debouncer = update debouncer level now;
          (pressed, debouncer) = get_rising_edge debouncer
      in if pressed then (debouncer, \<not> led_state) else (debouncer, led_state))"

text \<open>A run of \<^verbatim>\<open>update()\<close> alone, no accessor being called in between.\<close>

fun updates :: "SoftwareDebounce \<Rightarrow> (bool \<times> u32) list \<Rightarrow> SoftwareDebounce" where
  "updates s [] = s"
| "updates s ((level, now) # xs) = updates (update s level now) xs"

subsection \<open>Properties of runs\<close>

text \<open>
  A list of edges alternates when no two neighbours are equal. \<open>expects e es\<close>: the edges
  of \<open>es\<close> other than \<^verbatim>\<open>DEBOUNCE_NO_EDGE\<close> are \<open>e\<close>, then the other kind, then \<open>e\<close> again,
  and so on.
\<close>

fun alternating :: "debounce_edge_t list \<Rightarrow> bool" where
  "alternating (x # y # zs) = (x \<noteq> y \<and> alternating (y # zs))"
| "alternating zs = True"

definition other_edge :: "debounce_edge_t \<Rightarrow> debounce_edge_t" where
  "other_edge e =
     (if e = DEBOUNCE_RISING_EDGE then DEBOUNCE_FALLING_EDGE else DEBOUNCE_RISING_EDGE)"

fun expects :: "debounce_edge_t \<Rightarrow> debounce_edge_t list \<Rightarrow> bool" where
  "expects e [] = True"
| "expects e (x # xs) =
     (if x = DEBOUNCE_NO_EDGE then expects e xs else x = e \<and> expects (other_edge e) xs)"

text \<open>
  \<open>settles wa wi is_inverted r t xs\<close>: along the samples \<open>xs\<close>, the time elapsed since the
  most recent change of the polarity-corrected level stays below the window, \<open>wa\<close>
  while the level is active and \<open>wi\<close> while it is inactive. \<open>r\<close> is the level before
  the first sample and \<open>t\<close> the time of the most recent change, \<open>None\<close> before the first
  one (nothing is asked of the samples that precede every change).
\<close>

fun settles :: "u32 \<Rightarrow> u32 \<Rightarrow> bool \<Rightarrow> bool \<Rightarrow> u32 option \<Rightarrow> (bool \<times> u32) list \<Rightarrow> bool" where
  "settles wa wi is_inverted r t [] = True"
| "settles wa wi is_inverted r t ((level, now) # xs) =
     (let r' = raw_read level is_inverted;
          t' = (if r' \<noteq> r then Some now else t)
      in (case t' of None \<Rightarrow> True | Some t0 \<Rightarrow> now - t0 < (if r' then wa else wi))
         \<and> settles wa wi is_inverted r' t' xs)"

text \<open>
  \<open>corresponds s self\<close>: the two engines are in the same logical situation. The flag
  of the two-state engine is clear, the polarity is the same, the pair
  (\<^verbatim>\<open>prev_stable_state\<close>, \<^verbatim>\<open>cur_state\<close>) encodes the state of the machine, the timers agree
  in the tentative states, and both windows of the machine are one tick longer than
  \<^verbatim>\<open>delay_time\<close> (which is not the largest counter value).
\<close>

definition corresponds :: "SoftwareDebounce \<Rightarrow> debounce_t \<Rightarrow> bool" where
  "corresponds s self =
     (\<not> state_changed s \<and> inverted_sd s = inverted self \<and> delay_time s \<noteq> - 1
      \<and> press_delay_ticks self = delay_time s + 1
      \<and> release_delay_ticks self = delay_time s + 1
      \<and> (case state self of
            DEBOUNCE_LOW \<Rightarrow> \<not> prev_stable_state s \<and> \<not> cur_state s
          | DEBOUNCE_RISING \<Rightarrow>
              \<not> prev_stable_state s \<and> cur_state s \<and> last_change_time s = last_update_ticks self
          | DEBOUNCE_HIGH \<Rightarrow> prev_stable_state s \<and> cur_state s
          | DEBOUNCE_FALLING \<Rightarrow>
              prev_stable_state s \<and> \<not> cur_state s \<and> last_change_time s = last_update_ticks self))"

text \<open>\<open>only_edge k e\<close> keeps an edge of kind \<open>k\<close> and turns any other into \<^verbatim>\<open>DEBOUNCE_NO_EDGE\<close>.\<close>

definition only_edge :: "debounce_edge_t \<Rightarrow> debounce_edge_t \<Rightarrow> debounce_edge_t" where
  "only_edge k e = (if e = k then e else DEBOUNCE_NO_EDGE)"

text \<open>The edge the machine can emit next: it depends on the state alone.\<close>

definition next_edge :: "debounce_t \<Rightarrow> debounce_edge_t" where
  "next_edge self =
     (case state self of
        DEBOUNCE_LOW \<Rightarrow> DEBOUNCE_RISING_EDGE
      | DEBOUNCE_RISING \<Rightarrow> DEBOUNCE_RISING_EDGE
      | DEBOUNCE_HIGH \<Rightarrow> DEBOUNCE_FALLING_EDGE
      | DEBOUNCE_FALLING \<Rightarrow> DEBOUNCE_FALLING_EDGE)"

text \<open>
  \<open>held level t0 ds\<close>: samples that all read the level \<open>level\<close>, taken at the times
  \<open>t0 + d\<close> for the offsets \<open>d\<close> of \<open>ds\<close>, in order. The addition wraps as the counter does.
\<close>

definition held :: "bool \<Rightarrow> u32 \<Rightarrow> u32 list \<Rightarrow> (bool \<times> u32) list" where
  "held level t0 ds = map (\<lambda>d. (level, t0 + d)) ds"

text \<open>
  The link between an engine and the pair (\<open>r\<close>, \<open>t\<close>) that \<open>settles\<close> carries along:
  the engine has seen the level \<open>r\<close> last, and in a tentative state its timer is the
  time \<open>t\<close> of the most recent change of level.
\<close>

definition tracks_fsm :: "debounce_t \<Rightarrow> bool \<Rightarrow> u32 option \<Rightarrow> bool" where
  "tracks_fsm self r t =
     (case state self of
        DEBOUNCE_LOW \<Rightarrow> \<not> r
      | DEBOUNCE_RISING \<Rightarrow> r \<and> t = Some (last_update_ticks self)
      | DEBOUNCE_HIGH \<Rightarrow> r
      | DEBOUNCE_FALLING \<Rightarrow> \<not> r \<and> t = Some (last_update_ticks self))"

definition tracks_sd :: "SoftwareDebounce \<Rightarrow> bool \<Rightarrow> u32 option \<Rightarrow> bool" where
  "tracks_sd s r t =
     (\<not> state_changed s \<and> cur_state s = r \<and>
      (cur_state s = prev_stable_state s \<or> t = Some (last_change_time s)))"

section \<open>The four-state engine follows the transition table\<close>

text \<open>
  Claim C1. One call of \<^verbatim>\<open>debounce_update\<close> is one row of the transition table: with
  \<open>r\<close> the polarity-corrected sample and \<open>delta = now - last_update_ticks\<close>, the value
  returned is the edge of the table, the new state is the state of the table, the timer
  is set to \<open>now\<close> exactly where the table resets it, and no other field changes. The
  table emits a rising edge only in \<^verbatim>\<open>DEBOUNCE_RISING\<close> with \<open>r\<close> active and
  \<open>delta \<ge> press_window\<close>, a falling edge only in \<^verbatim>\<open>DEBOUNCE_FALLING\<close> with \<open>r\<close> inactive
  and \<open>delta \<ge> release_window\<close>, and no edge anywhere else.
\<close>

theorem debounce_update_follows_table:
  "debounce_update self level now =
     (let r = raw_read level (inverted self);
          (st, e, reset) = spec_table (state self) r (now - last_update_ticks self)
                             (press_delay_ticks self) (release_delay_ticks self)
      in (e, self\<lparr>state := st,
                  last_update_ticks := (if reset then now else last_update_ticks self)\<rparr>))"
  by (cases "state self"; cases "raw_read level (inverted self)")
     (simp_all add: debounce_update_def)

section \<open>Runs of the four-state engine\<close>

lemma debounce_edges_append:
  "debounce_edges self (xs @ ys) =
     debounce_edges self xs @ debounce_edges (debounce_final self xs) ys"
  by (induction xs arbitrary: self) auto

lemma debounce_final_append:
  "debounce_final self (xs @ ys) = debounce_final (debounce_final self xs) ys"
  by (induction xs arbitrary: self) auto

section \<open>Edge alternation\<close>

lemma other_edge_simps:
  "other_edge DEBOUNCE_RISING_EDGE = DEBOUNCE_FALLING_EDGE"
  "other_edge DEBOUNCE_FALLING_EDGE = DEBOUNCE_RISING_EDGE"
  by (simp_all add: other_edge_def)

text \<open>
  A call either returns no edge and keeps the kind of the next edge, or returns the
  edge that was due and flips the kind.
\<close>

lemma debounce_update_next_edge:
  "fst (debounce_update self level now) = DEBOUNCE_NO_EDGE \<and>
     next_edge (snd (debounce_update self level now)) = next_edge self
   \<or> fst (debounce_update self level now) = next_edge self \<and>
     next_edge (snd (debounce_update self level now)) = other_edge (next_edge self)"
  by (cases "state self"; cases "raw_read level (inverted self)")
     (simp_all add: debounce_update_def next_edge_def other_edge_simps)

lemma next_edge_not_none: "next_edge self \<noteq> DEBOUNCE_NO_EDGE"
  by (cases "state self") (simp_all add: next_edge_def)

lemma expects_debounce_edges: "expects (next_edge self) (debounce_edges self xs)"
proof (induction xs arbitrary: self)
  case Nil
  show ?case by simp
next
  case (Cons x xs)
  obtain level now where x: "x = (level, now)" by (cases x)
  from debounce_update_next_edge [of self level now] show ?case
  proof
    assume "fst (debounce_update self level now) = DEBOUNCE_NO_EDGE \<and>
      next_edge (snd (debounce_update self level now)) = next_edge self"
    with Cons.IH [of "snd (debounce_update self level now)"] show ?thesis
      by (simp add: x)
  next
    assume "fst (debounce_update self level now) = next_edge self \<and>
      next_edge (snd (debounce_update self level now)) = other_edge (next_edge self)"
    with Cons.IH [of "snd (debounce_update self level now)"] show ?thesis
      by (simp add: x next_edge_not_none)
  qed
qed

lemma expects_alternating:
  "expects e es \<Longrightarrow> e \<noteq> DEBOUNCE_NO_EDGE \<Longrightarrow>
   alternating (filter (\<lambda>x. x \<noteq> DEBOUNCE_NO_EDGE) es) \<and>
   (filter (\<lambda>x. x \<noteq> DEBOUNCE_NO_EDGE) es = [] \<or>
    hd (filter (\<lambda>x. x \<noteq> DEBOUNCE_NO_EDGE) es) = e)"
proof (induction es arbitrary: e)
  case Nil
  show ?case by simp
next
  case (Cons x es)
  show ?case
  proof (cases "x = DEBOUNCE_NO_EDGE")
    case True
    with Cons show ?thesis by simp
  next
    case False
    with Cons.prems have xe: "x = e" and rest: "expects (other_edge e) es" by simp_all
    have ne: "other_edge e \<noteq> DEBOUNCE_NO_EDGE" "other_edge e \<noteq> e"
      by (simp_all add: other_edge_def)
    from Cons.IH [OF rest ne(1)] ne(2) False xe show ?thesis
      by (cases "filter (\<lambda>x. x \<noteq> DEBOUNCE_NO_EDGE) es") auto
  qed
qed

text \<open>
  Claim C5. From any initial object and along any finite run, the edges returned by
  \<^verbatim>\<open>debounce_update\<close>, the \<^verbatim>\<open>DEBOUNCE_NO_EDGE\<close> results left out, alternate: no two
  neighbours are equal, so no two rising edges come without a falling edge between them
  and no two falling edges without a rising one. The first of them is a rising edge
  when the run starts in \<^verbatim>\<open>DEBOUNCE_LOW\<close> or \<^verbatim>\<open>DEBOUNCE_RISING\<close> and a falling edge when
  it starts in \<^verbatim>\<open>DEBOUNCE_HIGH\<close> or \<^verbatim>\<open>DEBOUNCE_FALLING\<close>.
\<close>

theorem edges_alternate:
  "alternating (filter (\<lambda>e. e \<noteq> DEBOUNCE_NO_EDGE) (debounce_edges self xs)) \<and>
   expects (if state self = DEBOUNCE_LOW \<or> state self = DEBOUNCE_RISING
            then DEBOUNCE_RISING_EDGE else DEBOUNCE_FALLING_EDGE) (debounce_edges self xs)"
proof -
  have "next_edge self =
          (if state self = DEBOUNCE_LOW \<or> state self = DEBOUNCE_RISING
           then DEBOUNCE_RISING_EDGE else DEBOUNCE_FALLING_EDGE)"
    by (cases "state self") (simp_all add: next_edge_def)
  with expects_debounce_edges [of self xs]
    expects_alternating [of "next_edge self" "debounce_edges self xs"]
    next_edge_not_none [of self]
  show ?thesis by simp
qed

section \<open>The accessors of the two-state engine\<close>

text \<open>
  With the flag set, an accessor clears it and answers whether it is the accessor of
  the confirmed state; with the flag clear, it answers no and changes nothing.
\<close>

lemma call_accessor_pending:
  "state_changed s \<Longrightarrow>
   call_accessor a s = (a = accessor_of_state (prev_stable_state s), s\<lparr>state_changed := False\<rparr>)"
  by (cases a)
     (auto simp: call_accessor_def get_rising_edge_def get_falling_edge_def get_changed_def
        accessor_of_state_def)

lemma call_accessor_clear:
  "\<not> state_changed s \<Longrightarrow> call_accessor a s = (False, s)"
  by (cases a)
     (simp_all add: call_accessor_def get_rising_edge_def get_falling_edge_def get_changed_def)

lemma accessor_results_clear:
  "\<not> state_changed s \<Longrightarrow>
   accessor_results s as = replicate (length as) False \<and> accessor_final s as = s"
  by (induction as) (simp_all add: call_accessor_clear)

lemma accessor_results_pending:
  "state_changed s \<Longrightarrow>
   accessor_results s (a # as) =
     (a = accessor_of_state (prev_stable_state s)) # replicate (length as) False \<and>
   accessor_final s (a # as) = s\<lparr>state_changed := False\<rparr>"
  using accessor_results_clear [of "s\<lparr>state_changed := False\<rparr>" as]
  by (simp add: call_accessor_pending)

text \<open>
  Claim C3, as amended. Let a transition be pending (\<^verbatim>\<open>state_changed\<close> is set) and let
  the polling thread make any non-empty sequence of accessor calls. Then the first call
  clears the flag, and it returns true exactly when it is the accessor of the new
  confirmed state (\<^verbatim>\<open>get_rising_edge\<close> for true, \<^verbatim>\<open>get_falling_edge\<close> for false); every
  later call returns false. So the transition is never delivered twice, it is
  delivered once when the first call is the matching accessor, and it is consumed
  without being reported when the first call is the other accessor.
\<close>

theorem accessors_report_once_if_matching:
  "state_changed s \<Longrightarrow>
   accessor_results s (a # as) =
     (a = accessor_of_state (prev_stable_state s)) # replicate (length as) False \<and>
   length (filter (\<lambda>b. b) (accessor_results s (a # as))) =
     (if a = accessor_of_state (prev_stable_state s) then 1 else 0) \<and>
   accessor_final s (a # as) = s\<lparr>state_changed := False\<rparr>"
  using accessor_results_pending [of s a as] by simp

theorem accessors_report_once_if_matching_witness:
  "state_changed (updates (SoftwareDebounce_new 4 True 50 True) [(False, 0), (False, 51)]) \<and>
   accessor_results (updates (SoftwareDebounce_new 4 True 50 True) [(False, 0), (False, 51)])
     [GET_RISING_EDGE, GET_FALLING_EDGE, GET_RISING_EDGE] = [True, False, False]"
proof -
  have h: "state_changed (updates (SoftwareDebounce_new 4 True 50 True) [(False, 0), (False, 51)])"
    by (simp add: SoftwareDebounce_new_def update_def read_raw_state_def)
  have p: "prev_stable_state (updates (SoftwareDebounce_new 4 True 50 True) [(False, 0), (False, 51)])"
    by (simp add: SoftwareDebounce_new_def update_def read_raw_state_def)
  from accessors_report_once_if_matching [OF h, of GET_RISING_EDGE "[GET_FALLING_EDGE, GET_RISING_EDGE]"] h p
  show ?thesis by (simp add: accessor_of_state_def)
qed

text \<open>
  Claim C3 as stated fails: after a confirmed release, the calls \<^verbatim>\<open>get_rising_edge()\<close>
  then \<^verbatim>\<open>get_falling_edge()\<close> both return false, and the release is reported by neither.
\<close>

theorem falling_edge_lost_counterexample:
  "state_changed (updates (SoftwareDebounce_new 4 True 50 False) [(True, 0), (True, 51)]) \<and>
   \<not> prev_stable_state (updates (SoftwareDebounce_new 4 True 50 False) [(True, 0), (True, 51)]) \<and>
   accessor_results (updates (SoftwareDebounce_new 4 True 50 False) [(True, 0), (True, 51)])
     [GET_RISING_EDGE, GET_FALLING_EDGE] = [False, False]"
  by (simp add: SoftwareDebounce_new_def update_def read_raw_state_def call_accessor_def
        get_rising_edge_def get_falling_edge_def get_changed_def)

section \<open>A pending edge survives further polling\<close>

lemma update_pending:
  "state_changed s \<Longrightarrow>
   state_changed (update s level now) \<and> prev_stable_state (update s level now) = prev_stable_state s"
  by (simp add: update_def Let_def)

lemma updates_pending:
  "state_changed s \<Longrightarrow>
   state_changed (updates s xs) \<and> prev_stable_state (updates s xs) = prev_stable_state s"
proof (induction xs arbitrary: s)
  case Nil
  then show ?case by simp
next
  case (Cons x xs)
  obtain level now where x: "x = (level, now)" by (cases x)
  from Cons.prems update_pending [of s level now]
  have "state_changed (update s level now)"
    and "prev_stable_state (update s level now) = prev_stable_state s" by simp_all
  with Cons.IH [of "update s level now"] show ?case by (simp add: x)
qed

text \<open>
  Claim C10. While \<^verbatim>\<open>state_changed\<close> is set, a call of \<^verbatim>\<open>update()\<close>, whatever level and
  time it reads, leaves \<^verbatim>\<open>state_changed\<close> and \<^verbatim>\<open>prev_stable_state\<close> as they are; so does
  any run of such calls, after which \<^verbatim>\<open>get_rising_edge()\<close> and \<^verbatim>\<open>get_falling_edge()\<close>
  still classify the edge by the confirmed state it had when it was confirmed.
\<close>

theorem pending_edge_preserved:
  "state_changed s \<Longrightarrow>
   state_changed (update s level now) \<and>
   prev_stable_state (update s level now) = prev_stable_state s \<and>
   state_changed (updates s xs) \<and>
   prev_stable_state (updates s xs) = prev_stable_state s \<and>
   fst (get_rising_edge (updates s xs)) = prev_stable_state s \<and>
   fst (get_falling_edge (updates s xs)) = (\<not> prev_stable_state s)"
  using update_pending [of s level now] updates_pending [of s xs]
  by (simp add: get_rising_edge_def get_falling_edge_def get_changed_def)

theorem pending_edge_preserved_witness:
  "state_changed (updates (SoftwareDebounce_new 4 True 50 True) [(False, 0), (False, 51)]) \<and>
   fst (get_rising_edge (updates (updates (SoftwareDebounce_new 4 True 50 True) [(False, 0), (False, 51)])
      [(True, 60), (True, 200), (False, 300)]))"
proof -
  have h: "state_changed (updates (SoftwareDebounce_new 4 True 50 True) [(False, 0), (False, 51)])"
    by (simp add: SoftwareDebounce_new_def update_def read_raw_state_def)
  have p: "prev_stable_state (updates (SoftwareDebounce_new 4 True 50 True) [(False, 0), (False, 51)])"
    by (simp add: SoftwareDebounce_new_def update_def read_raw_state_def)
  from pending_edge_preserved [OF h, of True 60 "[(True, 60), (True, 200), (False, 300)]"] h p
  show ?thesis by simp
qed

section \<open>Single steps of the four-state engine\<close>

lemma step_LOW:
  "state self = DEBOUNCE_LOW \<Longrightarrow>
   debounce_update self level now =
     (if raw_read level (inverted self)
      then (DEBOUNCE_NO_EDGE, self\<lparr>state := DEBOUNCE_RISING, last_update_ticks := now\<rparr>)
      else (DEBOUNCE_NO_EDGE, self))"
  by (simp add: debounce_update_def)

lemma step_RISING:
  "state self = DEBOUNCE_RISING \<Longrightarrow>
   debounce_update self level now =
     (if raw_read level (inverted self)
      then (if press_delay_ticks self \<le> now - last_update_ticks self
            then (DEBOUNCE_RISING_EDGE, self\<lparr>state := DEBOUNCE_HIGH\<rparr>)
            else (DEBOUNCE_NO_EDGE, self))
      else (DEBOUNCE_NO_EDGE, self\<lparr>state := DEBOUNCE_LOW\<rparr>))"
  by (simp add: debounce_update_def)

lemma step_HIGH:
  "state self = DEBOUNCE_HIGH \<Longrightarrow>
   debounce_update self level now =
     (if raw_read level (inverted self)
      then (DEBOUNCE_NO_EDGE, self)
      else (DEBOUNCE_NO_EDGE, self\<lparr>state := DEBOUNCE_FALLING, last_update_ticks := now\<rparr>))"
  by (simp add: debounce_update_def)

lemma step_FALLING:
  "state self = DEBOUNCE_FALLING \<Longrightarrow>
   debounce_update self level now =
     (if raw_read level (inverted self)
      then (DEBOUNCE_NO_EDGE, self\<lparr>state := DEBOUNCE_HIGH\<rparr>)
      else (if release_delay_ticks self \<le> now - last_update_ticks self
            then (DEBOUNCE_FALLING_EDGE, self\<lparr>state := DEBOUNCE_LOW\<rparr>)
            else (DEBOUNCE_NO_EDGE, self)))"
  by (simp add: debounce_update_def)

text \<open>The configuration is never written after \<^verbatim>\<open>debounce_init\<close>.\<close>

lemma debounce_update_config:
  "inverted (snd (debounce_update self level now)) = inverted self \<and>
   press_delay_ticks (snd (debounce_update self level now)) = press_delay_ticks self \<and>
   release_delay_ticks (snd (debounce_update self level now)) = release_delay_ticks self"
  by (cases "state self") (simp_all add: debounce_update_def Let_def)

lemma debounce_final_config:
  "inverted (debounce_final self xs) = inverted self \<and>
   press_delay_ticks (debounce_final self xs) = press_delay_ticks self \<and>
   release_delay_ticks (debounce_final self xs) = release_delay_ticks self"
proof (induction xs arbitrary: self)
  case Nil
  show ?case by simp
next
  case (Cons x xs)
  obtain level now where x: "x = (level, now)" by (cases x)
  from Cons.IH [of "snd (debounce_update self level now)"] debounce_update_config [of self level now]
  show ?case by (simp add: x)
qed

section \<open>Holding a level\<close>

text \<open>Samples taken at the offsets \<open>ds\<close> from the time \<open>t0\<close>, all at the level \<open>level\<close>.\<close>

lemma rising_wait:
  assumes "state self = DEBOUNCE_RISING" and "raw_read level (inverted self)"
    and "\<forall>d\<in>set ds. d < press_delay_ticks self"
  shows "debounce_edges self (held level (last_update_ticks self) ds) =
           replicate (length ds) DEBOUNCE_NO_EDGE \<and>
         debounce_final self (held level (last_update_ticks self) ds) = self"
  using assms by (induction ds) (auto simp: held_def step_RISING)

lemma falling_wait:
  assumes "state self = DEBOUNCE_FALLING" and "\<not> raw_read level (inverted self)"
    and "\<forall>d\<in>set ds. d < release_delay_ticks self"
  shows "debounce_edges self (held level (last_update_ticks self) ds) =
           replicate (length ds) DEBOUNCE_NO_EDGE \<and>
         debounce_final self (held level (last_update_ticks self) ds) = self"
  using assms by (induction ds) (auto simp: held_def step_FALLING)

lemma low_hold:
  assumes "state self = DEBOUNCE_LOW" and "\<not> raw_read level (inverted self)"
  shows "debounce_edges self (held level t0 ds) = replicate (length ds) DEBOUNCE_NO_EDGE \<and>
         debounce_final self (held level t0 ds) = self"
  using assms by (induction ds) (simp_all add: held_def step_LOW)

lemma falling_hold:
  assumes "state self = DEBOUNCE_FALLING" and "\<not> raw_read level (inverted self)"
    and "release_delay_ticks self \<le> d"
  shows "filter (\<lambda>e. e \<noteq> DEBOUNCE_NO_EDGE)
           (debounce_edges self (held level (last_update_ticks self) (ds @ [d]))) =
         [DEBOUNCE_FALLING_EDGE]"
  using assms
proof (induction ds)
  case Nil
  then show ?case by (simp add: held_def step_FALLING)
next
  case (Cons a ds)
  show ?case
  proof (cases "release_delay_ticks self \<le> a")
    case True
    have "state (self\<lparr>state := DEBOUNCE_LOW\<rparr>) = DEBOUNCE_LOW"
      and "\<not> raw_read level (inverted (self\<lparr>state := DEBOUNCE_LOW\<rparr>))"
      using Cons.prems by simp_all
    from low_hold [OF this, of "last_update_ticks self" "ds @ [d]"] True Cons.prems
    show ?thesis by (simp add: held_def step_FALLING)
  next
    case False
    with Cons show ?thesis by (simp add: held_def step_FALLING)
  qed
qed


section \<open>Steps of the two-state engine\<close>

lemma update_flip:
  "\<not> state_changed s \<Longrightarrow> read_raw_state s level \<noteq> cur_state s \<Longrightarrow>
   update s level now = s\<lparr>cur_state := read_raw_state s level, last_change_time := now\<rparr>"
  by (simp add: update_def Let_def)

lemma update_same:
  "\<not> state_changed s \<Longrightarrow> read_raw_state s level = cur_state s \<Longrightarrow>
   update s level now =
     (if delay_time s < now - last_change_time s \<and> cur_state s \<noteq> prev_stable_state s
      then s\<lparr>prev_stable_state := cur_state s, state_changed := True\<rparr>
      else s)"
  by (simp add: update_def Let_def)

lemma reported_edge_False: "reported_edge accs (replicate n False) = DEBOUNCE_NO_EDGE"
proof (induction accs arbitrary: n)
  case Nil
  show ?case by simp
next
  case (Cons a accs)
  then show ?case by (cases n) simp_all
qed

lemma poll_no_confirm:
  "\<not> state_changed (update s level now) \<Longrightarrow>
   poll accs s level now = (DEBOUNCE_NO_EDGE, update s level now)"
  using accessor_results_clear [of "update s level now" accs]
  by (simp add: poll_def Let_def reported_edge_False)

lemma poll_confirm:
  "state_changed (update s level now) \<Longrightarrow>
   poll (a # as) s level now =
     (if a = accessor_of_state (prev_stable_state (update s level now))
      then edge_of_accessor a else DEBOUNCE_NO_EDGE,
      (update s level now)\<lparr>state_changed := False\<rparr>)"
  using accessor_results_pending [of "update s level now" a as]
  by (simp add: poll_def Let_def reported_edge_False)

text \<open>\<^verbatim>\<open>loop()\<close> is the poll that calls \<^verbatim>\<open>get_rising_edge()\<close> alone.\<close>

lemma loop_is_poll:
  "loop (d, led) level now =
     (snd (poll [GET_RISING_EDGE] d level now),
      if fst (poll [GET_RISING_EDGE] d level now) = DEBOUNCE_RISING_EDGE then \<not> led else led)"
  by (simp add: loop_def poll_def call_accessor_def edge_of_accessor_def Let_def
        split: prod.splits)

lemma poll_edges_append:
  "poll_edges accs s (xs @ ys) = poll_edges accs s xs @ poll_edges accs (poll_final accs s xs) ys"
  by (induction xs arbitrary: s) auto

lemma poll_final_append:
  "poll_final accs s (xs @ ys) = poll_final accs (poll_final accs s xs) ys"
  by (induction xs arbitrary: s) auto

lemma tentative_wait:
  assumes "\<not> state_changed s" and "read_raw_state s level = cur_state s"
    and "\<forall>d\<in>set ds. d \<le> delay_time s"
  shows "poll_edges accs s (held level (last_change_time s) ds) =
           replicate (length ds) DEBOUNCE_NO_EDGE \<and>
         poll_final accs s (held level (last_change_time s) ds) = s"
  using assms
proof (induction ds)
  case Nil
  show ?case by (simp add: held_def)
next
  case (Cons d ds)
  from Cons.prems have "update s level (last_change_time s + d) = s"
    by (auto simp: update_same)
  with Cons.prems(1) have "poll accs s level (last_change_time s + d) = (DEBOUNCE_NO_EDGE, s)"
    by (simp add: poll_no_confirm)
  with Cons show ?case by (simp add: held_def)
qed

section \<open>Confirmation at the threshold\<close>

lemma exact_threshold_fsm:
  assumes "state self = DEBOUNCE_LOW" and "raw_read level (inverted self)"
    and "\<forall>d\<in>set ds. d < press_delay_ticks self"
  shows "debounce_edges self ((level, t0) # held level t0 (ds @ [press_delay_ticks self])) =
           replicate (Suc (length ds)) DEBOUNCE_NO_EDGE @ [DEBOUNCE_RISING_EDGE]"
proof -
  let ?r = "self\<lparr>state := DEBOUNCE_RISING, last_update_ticks := t0\<rparr>"
  have first: "debounce_update self level t0 = (DEBOUNCE_NO_EDGE, ?r)"
    using assms by (simp add: step_LOW)
  have "state ?r = DEBOUNCE_RISING" "raw_read level (inverted ?r)"
    "\<forall>d\<in>set ds. d < press_delay_ticks ?r"
    using assms by simp_all
  from rising_wait [OF this]
  have wait: "debounce_edges ?r (held level t0 ds) = replicate (length ds) DEBOUNCE_NO_EDGE"
    "debounce_final ?r (held level t0 ds) = ?r"
    by simp_all
  have last: "debounce_edges ?r (held level t0 [press_delay_ticks self]) = [DEBOUNCE_RISING_EDGE]"
    using assms by (simp add: held_def step_RISING)
  have "held level t0 (ds @ [press_delay_ticks self]) =
          held level t0 ds @ held level t0 [press_delay_ticks self]"
    by (simp add: held_def)
  with first wait last show ?thesis
    by (simp add: debounce_edges_append replicate_append_same)
qed

lemma strict_threshold_sd:
  assumes "\<not> state_changed s" and "\<not> prev_stable_state s" and "\<not> cur_state s"
    and "read_raw_state s level"
    and "\<forall>d\<in>set ds. d \<le> delay_time s" and "delay_time s < e"
  shows "poll_edges (GET_RISING_EDGE # accs) s
           ((level, t0) # held level t0 (ds @ [delay_time s, e])) =
         replicate (length ds + 2) DEBOUNCE_NO_EDGE @ [DEBOUNCE_RISING_EDGE]"
proof -
  let ?p = "GET_RISING_EDGE # accs"
  let ?r = "s\<lparr>cur_state := True, last_change_time := t0\<rparr>"
  have "update s level t0 = ?r"
    using assms by (simp add: update_flip)
  with assms(1) have first: "poll ?p s level t0 = (DEBOUNCE_NO_EDGE, ?r)"
    by (simp add: poll_no_confirm)
  have r: "\<not> state_changed ?r" "read_raw_state ?r level = cur_state ?r"
    using assms by (simp_all add: read_raw_state_def)
  moreover have "\<forall>d\<in>set (ds @ [delay_time s]). d \<le> delay_time ?r"
    using assms by simp
  ultimately have wait:
    "poll_edges ?p ?r (held level (last_change_time ?r) (ds @ [delay_time s])) =
       replicate (length (ds @ [delay_time s])) DEBOUNCE_NO_EDGE \<and>
     poll_final ?p ?r (held level (last_change_time ?r) (ds @ [delay_time s])) = ?r"
    by (rule tentative_wait)
  have "update ?r level (t0 + e) = ?r\<lparr>prev_stable_state := True, state_changed := True\<rparr>"
    using r assms by (simp add: update_same)
  then have "poll ?p ?r level (t0 + e) =
      (DEBOUNCE_RISING_EDGE, ?r\<lparr>prev_stable_state := True, state_changed := False\<rparr>)"
    by (simp add: poll_confirm accessor_of_state_def edge_of_accessor_def)
  then have last: "poll_edges ?p ?r (held level t0 [e]) = [DEBOUNCE_RISING_EDGE]"
    by (simp add: held_def)
  have "held level t0 (ds @ [delay_time s, e]) =
          held level t0 (ds @ [delay_time s]) @ held level t0 [e]"
    by (simp add: held_def)
  with first wait last show ?thesis
    by (simp add: poll_edges_append replicate_append_same)
qed

text \<open>
  Claim C2, as amended. Both engines start confirmed low and read the active level at
  every sample; the first sample is taken at \<open>t0\<close>, the later ones at the offsets given
  from \<open>t0\<close>.
  \<^item> Four-state engine: the comparison is inclusive. While the offsets stay below
    \<^verbatim>\<open>press_delay_ticks\<close> every call returns \<^verbatim>\<open>DEBOUNCE_NO_EDGE\<close>, and the call at the offset
    \<^verbatim>\<open>press_delay_ticks\<close> exactly returns \<^verbatim>\<open>DEBOUNCE_RISING_EDGE\<close>: one rising edge, on the
    first call at which the elapsed time reaches the window, none earlier.
  \<^item> Two-state engine: the comparison is strict. While the offsets are at most
    \<^verbatim>\<open>delay_time\<close>, the offset \<^verbatim>\<open>delay_time\<close> itself included, nothing is confirmed; the
    press is confirmed, and reported by \<^verbatim>\<open>get_rising_edge()\<close>, at the first call whose
    offset exceeds \<^verbatim>\<open>delay_time\<close>.
\<close>

theorem threshold_inclusive_fsm_strict_sd:
  "(state self = DEBOUNCE_LOW \<and> raw_read level (inverted self) \<and>
    (\<forall>d\<in>set ds. d < press_delay_ticks self) \<longrightarrow>
    debounce_edges self ((level, t0) # held level t0 (ds @ [press_delay_ticks self])) =
      replicate (Suc (length ds)) DEBOUNCE_NO_EDGE @ [DEBOUNCE_RISING_EDGE])
   \<and>
   (\<not> state_changed s \<and> \<not> prev_stable_state s \<and> \<not> cur_state s \<and>
    read_raw_state s level' \<and> (\<forall>d\<in>set ds'. d \<le> delay_time s) \<and> delay_time s < e \<longrightarrow>
    poll_edges (GET_RISING_EDGE # accs) s
      ((level', t0') # held level' t0' (ds' @ [delay_time s, e])) =
      replicate (length ds' + 2) DEBOUNCE_NO_EDGE @ [DEBOUNCE_RISING_EDGE])"
  using exact_threshold_fsm [of self level ds t0] strict_threshold_sd [of s level' ds' e accs t0']
  by blast


theorem threshold_inclusive_fsm_strict_sd_witness:
  "(state (debounce_init (\<lambda>ms. ms) 4 True 50 20 0 True) = DEBOUNCE_LOW \<and>
    raw_read False (inverted (debounce_init (\<lambda>ms. ms) 4 True 50 20 0 True)) \<and>
    list_all (\<lambda>d. d < press_delay_ticks (debounce_init (\<lambda>ms. ms) 4 True 50 20 0 True))
      [10, 20, 30, 40] \<and>
    debounce_edges (debounce_init (\<lambda>ms. ms) 4 True 50 20 0 True)
      [(False, 100), (False, 110), (False, 120), (False, 130), (False, 140), (False, 150)] =
      [DEBOUNCE_NO_EDGE, DEBOUNCE_NO_EDGE, DEBOUNCE_NO_EDGE, DEBOUNCE_NO_EDGE,
       DEBOUNCE_NO_EDGE, DEBOUNCE_RISING_EDGE])
   \<and>
   (\<not> state_changed (SoftwareDebounce_new 4 True 50 True) \<and>
    \<not> prev_stable_state (SoftwareDebounce_new 4 True 50 True) \<and>
    \<not> cur_state (SoftwareDebounce_new 4 True 50 True) \<and>
    read_raw_state (SoftwareDebounce_new 4 True 50 True) False \<and>
    list_all (\<lambda>d. d \<le> delay_time (SoftwareDebounce_new 4 True 50 True)) [10, 40] \<and>
    delay_time (SoftwareDebounce_new 4 True 50 True) < 51 \<and>
    poll_edges [GET_RISING_EDGE] (SoftwareDebounce_new 4 True 50 True)
      [(False, 100), (False, 110), (False, 140), (False, 150), (False, 151)] =
      [DEBOUNCE_NO_EDGE, DEBOUNCE_NO_EDGE, DEBOUNCE_NO_EDGE, DEBOUNCE_NO_EDGE,
       DEBOUNCE_RISING_EDGE])"
  using threshold_inclusive_fsm_strict_sd
    [of "debounce_init (\<lambda>ms. ms) 4 True 50 20 0 True" False "[10, 20, 30, 40]" 100
        "SoftwareDebounce_new 4 True 50 True" False "[10, 40]" 51 "[]" 100]
  by (simp add: debounce_init_def SoftwareDebounce_new_def raw_read_def read_raw_state_def held_def)

text \<open>
  Claim C2 as stated fails for the two-state engine: with \<^verbatim>\<open>delay_time = 50\<close>, an active
  level first seen at time 0 and seen again at time 50 confirms nothing.
\<close>

theorem exact_threshold_sd_counterexample:
  "\<not> state_changed (SoftwareDebounce_new 4 True 50 True) \<and>
   \<not> prev_stable_state (SoftwareDebounce_new 4 True 50 True) \<and>
   delay_time (SoftwareDebounce_new 4 True 50 True) = 50 \<and>
   poll_edges [GET_RISING_EDGE] (SoftwareDebounce_new 4 True 50 True)
     [(False, 0), (False, 50)] = [DEBOUNCE_NO_EDGE, DEBOUNCE_NO_EDGE] \<and>
   \<not> state_changed (updates (SoftwareDebounce_new 4 True 50 True) [(False, 0), (False, 50)])"
  by (simp add: SoftwareDebounce_new_def poll_def update_def read_raw_state_def call_accessor_def
        get_rising_edge_def get_changed_def)

section \<open>Zero windows\<close>

text \<open>
  Claim C9, as amended. A window of zero is accepted by both constructors, and the
  engines then behave as follows when the level first differs from the confirmed state
  at the sample \<open>(l, t1)\<close> and is read again at \<open>(l, t2)\<close>.
  \<^item> Four-state engine, zero press window, constructed low: the first call returns
    \<^verbatim>\<open>DEBOUNCE_NO_EDGE\<close> (it only enters \<^verbatim>\<open>DEBOUNCE_RISING\<close>), the second returns
    \<^verbatim>\<open>DEBOUNCE_RISING_EDGE\<close>, whatever the two times are. The same holds for a zero release
    window, constructed high, with \<^verbatim>\<open>DEBOUNCE_FALLING_EDGE\<close>.
  \<^item> Two-state engine, \<^verbatim>\<open>delay_time = 0\<close>: the first call confirms nothing; the second
    confirms, and the matching accessor reports the edge, exactly when the clock has moved
    (\<open>t2 \<noteq> t1\<close>).
\<close>

theorem zero_window_confirms_on_second_sample:
  "(pdMS_TO_TICKS press_ms = 0 \<and> \<not> raw_read l0 is_inverted \<and> raw_read l is_inverted \<longrightarrow>
    debounce_edges (debounce_init pdMS_TO_TICKS pin_no is_inverted press_ms release_ms t0 l0)
      [(l, t1), (l, t2)] = [DEBOUNCE_NO_EDGE, DEBOUNCE_RISING_EDGE])
   \<and>
   (pdMS_TO_TICKS release_ms = 0 \<and> raw_read l0 is_inverted \<and> \<not> raw_read l is_inverted \<longrightarrow>
    debounce_edges (debounce_init pdMS_TO_TICKS pin_no is_inverted press_ms release_ms t0 l0)
      [(l, t1), (l, t2)] = [DEBOUNCE_NO_EDGE, DEBOUNCE_FALLING_EDGE])
   \<and>
   (l \<noteq> l0 \<longrightarrow>
    poll_edges
      (accessor_of_state (read_raw_state (SoftwareDebounce_new switch_pin is_inverted 0 l0) l) # accs)
      (SoftwareDebounce_new switch_pin is_inverted 0 l0) [(l, t1), (l, t2)] =
      [DEBOUNCE_NO_EDGE,
       if t2 \<noteq> t1
       then edge_of_accessor
              (accessor_of_state (read_raw_state (SoftwareDebounce_new switch_pin is_inverted 0 l0) l))
       else DEBOUNCE_NO_EDGE])"
proof (intro conjI impI)
  assume "pdMS_TO_TICKS press_ms = 0 \<and> \<not> raw_read l0 is_inverted \<and> raw_read l is_inverted"
  then show "debounce_edges
      (debounce_init pdMS_TO_TICKS pin_no is_inverted press_ms release_ms t0 l0)
      [(l, t1), (l, t2)] = [DEBOUNCE_NO_EDGE, DEBOUNCE_RISING_EDGE]"
    by (simp add: debounce_init_def step_LOW step_RISING)
next
  assume "pdMS_TO_TICKS release_ms = 0 \<and> raw_read l0 is_inverted \<and> \<not> raw_read l is_inverted"
  then show "debounce_edges
      (debounce_init pdMS_TO_TICKS pin_no is_inverted press_ms release_ms t0 l0)
      [(l, t1), (l, t2)] = [DEBOUNCE_NO_EDGE, DEBOUNCE_FALLING_EDGE]"
    by (simp add: debounce_init_def step_HIGH step_FALLING)
next
  assume ne: "l \<noteq> l0"
  let ?s = "SoftwareDebounce_new switch_pin is_inverted 0 l0"
  let ?r = "read_raw_state ?s l"
  let ?s1 = "?s\<lparr>cur_state := ?r, last_change_time := t1\<rparr>"
  have s: "\<not> state_changed ?s" "cur_state ?s = prev_stable_state ?s" "delay_time ?s = 0"
    "?r \<noteq> cur_state ?s"
    using ne by (auto simp: SoftwareDebounce_new_def read_raw_state_def)
  then have u1: "update ?s l t1 = ?s1"
    by (simp add: update_flip)
  with s have p1: "poll (accessor_of_state ?r # accs) ?s l t1 = (DEBOUNCE_NO_EDGE, ?s1)"
    by (simp add: poll_no_confirm)
  have s1: "\<not> state_changed ?s1" "read_raw_state ?s1 l = cur_state ?s1"
    "cur_state ?s1 \<noteq> prev_stable_state ?s1" "delay_time ?s1 = 0" "last_change_time ?s1 = t1"
    "cur_state ?s1 = ?r"
    using s by (simp_all add: read_raw_state_def)
  have u2: "update ?s1 l t2 =
      (if t2 \<noteq> t1 then ?s1\<lparr>prev_stable_state := ?r, state_changed := True\<rparr> else ?s1)"
    using s1 by (simp add: update_same word_greater_zero_iff)
  have p2: "fst (poll (accessor_of_state ?r # accs) ?s1 l t2) =
      (if t2 \<noteq> t1 then edge_of_accessor (accessor_of_state ?r) else DEBOUNCE_NO_EDGE)"
  proof (cases "t2 = t1")
    case True
    with u2 s1(1) show ?thesis by (simp add: poll_no_confirm)
  next
    case False
    with u2 have "state_changed (update ?s1 l t2)"
      and "prev_stable_state (update ?s1 l t2) = ?r" by simp_all
    with False show ?thesis by (simp add: poll_confirm)
  qed
  from p1 p2 show "poll_edges (accessor_of_state ?r # accs) ?s [(l, t1), (l, t2)] =
      [DEBOUNCE_NO_EDGE,
       if t2 \<noteq> t1 then edge_of_accessor (accessor_of_state ?r) else DEBOUNCE_NO_EDGE]"
    by simp
qed

theorem zero_window_confirms_on_second_sample_witness:
  "((\<lambda>ms. ms) (0 :: u32) = 0 \<and> \<not> raw_read True True \<and> raw_read False True \<and>
    debounce_edges (debounce_init (\<lambda>ms. ms) 4 True 0 20 0 True) [(False, 7), (False, 7)] =
      [DEBOUNCE_NO_EDGE, DEBOUNCE_RISING_EDGE])
   \<and>
   ((\<lambda>ms. ms) (0 :: u32) = 0 \<and> raw_read False True \<and> \<not> raw_read True True \<and>
    debounce_edges (debounce_init (\<lambda>ms. ms) 4 True 50 0 0 False) [(True, 7), (True, 7)] =
      [DEBOUNCE_NO_EDGE, DEBOUNCE_FALLING_EDGE])
   \<and>
   (False \<noteq> True \<and>
    poll_edges [GET_RISING_EDGE] (SoftwareDebounce_new 4 True 0 True) [(False, 7), (False, 8)] =
      [DEBOUNCE_NO_EDGE, DEBOUNCE_RISING_EDGE] \<and>
    poll_edges [GET_RISING_EDGE] (SoftwareDebounce_new 4 True 0 True) [(False, 7), (False, 7)] =
      [DEBOUNCE_NO_EDGE, DEBOUNCE_NO_EDGE])"
  using zero_window_confirms_on_second_sample
      [where pdMS_TO_TICKS = "\<lambda>ms. ms" and press_ms = 0 and release_ms = 20 and pin_no = 4
         and is_inverted = True and ?l0.0 = True and l = False and ?t0.0 = 0 and ?t1.0 = 7
         and ?t2.0 = 7 and switch_pin = 4 and accs = "[]"]
    zero_window_confirms_on_second_sample
      [where pdMS_TO_TICKS = "\<lambda>ms. ms" and press_ms = 50 and release_ms = 0 and pin_no = 4
         and is_inverted = True and ?l0.0 = False and l = True and ?t0.0 = 0 and ?t1.0 = 7
         and ?t2.0 = 7 and switch_pin = 4 and accs = "[]"]
    zero_window_confirms_on_second_sample
      [where pdMS_TO_TICKS = "\<lambda>ms. ms" and press_ms = 0 and release_ms = 20 and pin_no = 4
         and is_inverted = True and ?l0.0 = True and l = False and ?t0.0 = 0 and ?t1.0 = 7
         and ?t2.0 = 8 and switch_pin = 4 and accs = "[]"]
  by (simp add: raw_read_def read_raw_state_def SoftwareDebounce_new_def accessor_of_state_def
        edge_of_accessor_def)

text \<open>
  Claim C9 as stated fails: with a zero window, the first call at which the sample
  differs from the confirmed state returns no edge, in both engines.
\<close>

theorem zero_window_first_sample_counterexample:
  "press_delay_ticks (debounce_init (\<lambda>ms. ms) 4 True 0 0 0 True) = 0 \<and>
   state (debounce_init (\<lambda>ms. ms) 4 True 0 0 0 True) = DEBOUNCE_LOW \<and>
   raw_read False (inverted (debounce_init (\<lambda>ms. ms) 4 True 0 0 0 True)) \<and>
   fst (debounce_update (debounce_init (\<lambda>ms. ms) 4 True 0 0 0 True) False 5) = DEBOUNCE_NO_EDGE \<and>
   delay_time (SoftwareDebounce_new 4 True 0 True) = 0 \<and>
   \<not> prev_stable_state (SoftwareDebounce_new 4 True 0 True) \<and>
   read_raw_state (SoftwareDebounce_new 4 True 0 True) False \<and>
   fst (poll [GET_RISING_EDGE, GET_FALLING_EDGE] (SoftwareDebounce_new 4 True 0 True) False 5) =
     DEBOUNCE_NO_EDGE \<and>
   \<not> state_changed (update (SoftwareDebounce_new 4 True 0 True) False 5)"
  by (simp add: debounce_init_def debounce_update_def raw_read_def SoftwareDebounce_new_def
        poll_def update_def read_raw_state_def call_accessor_def get_rising_edge_def
        get_falling_edge_def get_changed_def)

section \<open>Hysteresis\<close>

lemma release_confirmed:
  assumes "state self = DEBOUNCE_HIGH" and "\<not> raw_read level (inverted self)"
    and "release_delay_ticks self \<le> d"
  shows "filter (\<lambda>e. e \<noteq> DEBOUNCE_NO_EDGE)
           (debounce_edges self ((level, t0) # held level t0 (ds @ [d]))) =
         [DEBOUNCE_FALLING_EDGE]"
proof -
  let ?f = "self\<lparr>state := DEBOUNCE_FALLING, last_update_ticks := t0\<rparr>"
  have first: "debounce_update self level t0 = (DEBOUNCE_NO_EDGE, ?f)"
    using assms by (simp add: step_HIGH)
  have "state ?f = DEBOUNCE_FALLING" "\<not> raw_read level (inverted ?f)"
    "release_delay_ticks ?f \<le> d"
    using assms by simp_all
  from falling_hold [OF this, of ds] first show ?thesis by simp
qed

lemma release_rejected:
  assumes "state self = DEBOUNCE_HIGH" and "\<not> raw_read level (inverted self)"
    and "raw_read level' (inverted self)"
    and "\<forall>d\<in>set ds. d < release_delay_ticks self"
  shows "debounce_edges self ((level, t0) # held level t0 ds @ [(level', t1)]) =
           replicate (length ds + 2) DEBOUNCE_NO_EDGE \<and>
         state (debounce_final self ((level, t0) # held level t0 ds @ [(level', t1)])) =
           DEBOUNCE_HIGH"
proof -
  let ?f = "self\<lparr>state := DEBOUNCE_FALLING, last_update_ticks := t0\<rparr>"
  have first: "debounce_update self level t0 = (DEBOUNCE_NO_EDGE, ?f)"
    using assms by (simp add: step_HIGH)
  have "state ?f = DEBOUNCE_FALLING" "\<not> raw_read level (inverted ?f)"
    "\<forall>d\<in>set ds. d < release_delay_ticks ?f"
    using assms by simp_all
  from falling_wait [OF this]
  have wait: "debounce_edges ?f (held level t0 ds) = replicate (length ds) DEBOUNCE_NO_EDGE"
    "debounce_final ?f (held level t0 ds) = ?f"
    by simp_all
  have last: "debounce_update ?f level' t1 = (DEBOUNCE_NO_EDGE, ?f\<lparr>state := DEBOUNCE_HIGH\<rparr>)"
    using assms by (simp add: step_FALLING)
  from first wait last show ?thesis
    by (simp add: debounce_edges_append debounce_final_append replicate_append_same)
qed

text \<open>
  Claim C7. The engine is configured by \<^verbatim>\<open>debounce_init\<close> with a press delay of 50 ms and
  a release delay of 20 ms and has since reached \<^verbatim>\<open>DEBOUNCE_HIGH\<close> (a press is confirmed).
  Time is read on the tick counter, a duration of \<open>n\<close> ms being \<^verbatim>\<open>pdMS_TO_TICKS(n)\<close> ticks,
  and the conversion tells 15 ms from 20 ms and does not put 25 ms below 20 ms.
  \<^item> An inactive level first seen at \<open>t0\<close> and still seen 25 ms later, whatever inactive
    samples lie between, makes exactly one call return \<^verbatim>\<open>DEBOUNCE_FALLING_EDGE\<close>, and no
    call return a rising edge.
  \<^item> An inactive level first seen at \<open>t0\<close>, seen for at most 15 ms and followed by an
    active sample makes every call return \<^verbatim>\<open>DEBOUNCE_NO_EDGE\<close>, and the engine is back in
    \<^verbatim>\<open>DEBOUNCE_HIGH\<close>.
\<close>

theorem hysteresis_release_window:
  assumes "self = debounce_final
                    (debounce_init pdMS_TO_TICKS pin_no is_inverted 50 20 t_init l_init) history"
    and "state self = DEBOUNCE_HIGH"
    and "\<not> raw_read level is_inverted" and "raw_read level' is_inverted"
    and "pdMS_TO_TICKS 15 < pdMS_TO_TICKS 20" and "pdMS_TO_TICKS 20 \<le> pdMS_TO_TICKS 25"
    and "\<forall>d\<in>set ds'. d \<le> pdMS_TO_TICKS 15"
  shows "filter (\<lambda>e. e \<noteq> DEBOUNCE_NO_EDGE)
           (debounce_edges self ((level, t0) # held level t0 (ds @ [pdMS_TO_TICKS 25]))) =
           [DEBOUNCE_FALLING_EDGE] \<and>
         debounce_edges self ((level, t0) # held level t0 ds' @ [(level', t1)]) =
           replicate (length ds' + 2) DEBOUNCE_NO_EDGE \<and>
         state (debounce_final self ((level, t0) # held level t0 ds' @ [(level', t1)])) =
           DEBOUNCE_HIGH"
proof -
  let ?e = "debounce_init pdMS_TO_TICKS pin_no is_inverted 50 20 t_init l_init"
  have cfg: "inverted self = is_inverted" "release_delay_ticks self = pdMS_TO_TICKS 20"
    using debounce_final_config [of ?e history] assms(1)
    by (simp_all add: debounce_init_def)
  have a: "\<not> raw_read level (inverted self)" "raw_read level' (inverted self)"
    using assms cfg by simp_all
  have b: "release_delay_ticks self \<le> pdMS_TO_TICKS 25"
    using assms cfg by simp
  have c: "\<forall>d\<in>set ds'. d < release_delay_ticks self"
    using assms(5,7) cfg by auto
  from release_confirmed [OF assms(2) a(1) b, of t0 ds]
    release_rejected [OF assms(2) a c, of t0 t1]
  show ?thesis by simp
qed

theorem hysteresis_release_window_witness:
  "state (debounce_final (debounce_init (\<lambda>ms. ms) 4 True 50 20 0 True) [(False, 0), (False, 50)]) =
     DEBOUNCE_HIGH \<and>
   \<not> raw_read True True \<and> raw_read False True \<and>
   (\<lambda>ms. ms) (15 :: u32) < (\<lambda>ms. ms) 20 \<and> (\<lambda>ms. ms) (20 :: u32) \<le> (\<lambda>ms. ms) 25 \<and>
   list_all (\<lambda>d. d \<le> (\<lambda>ms. ms) (15 :: u32)) [5, 15] \<and>
   filter (\<lambda>e. e \<noteq> DEBOUNCE_NO_EDGE)
     (debounce_edges
        (debounce_final (debounce_init (\<lambda>ms. ms) 4 True 50 20 0 True) [(False, 0), (False, 50)])
        [(True, 60), (True, 70), (True, 85)]) = [DEBOUNCE_FALLING_EDGE] \<and>
   debounce_edges
     (debounce_final (debounce_init (\<lambda>ms. ms) 4 True 50 20 0 True) [(False, 0), (False, 50)])
     [(True, 60), (True, 65), (True, 75), (False, 80)] =
     [DEBOUNCE_NO_EDGE, DEBOUNCE_NO_EDGE, DEBOUNCE_NO_EDGE, DEBOUNCE_NO_EDGE]"
proof -
  have h: "state (debounce_final (debounce_init (\<lambda>ms. ms) 4 True 50 20 0 True)
             [(False, 0), (False, 50)]) = DEBOUNCE_HIGH"
    by (simp add: debounce_init_def debounce_update_def raw_read_def)
  have r: "\<not> raw_read True True" "raw_read False True"
    by (simp_all add: raw_read_def)
  have o: "\<forall>d\<in>set [5, 15 :: u32]. d \<le> (\<lambda>ms. ms) 15" by simp
  from hysteresis_release_window
    [where pdMS_TO_TICKS = "\<lambda>ms. ms" and pin_no = 4 and is_inverted = True and t_init = 0
       and l_init = True and history = "[(False, 0), (False, 50)]" and level = True
       and level' = False and ds' = "[5, 15]" and ds = "[10]" and ?t0.0 = 60 and ?t1.0 = 80,
     OF refl h r _ _ o] h r
  show ?thesis
    by (simp add: held_def debounce_init_def debounce_update_def raw_read_def)
qed

section \<open>Counter wrap-around\<close>

text \<open>
  \<open>T_last\<close> and \<open>T_now\<close> are the times on a clock that never wraps; the engines see
  them modulo \<open>2 ^ 32\<close>, as \<open>of_nat T_last\<close> and \<open>of_nat T_now\<close>.
\<close>

lemma elapsed_true:
  assumes "T_last \<le> T_now" and "T_now - T_last < 2 ^ 32"
  shows "unat ((of_nat T_now :: u32) - of_nat T_last) = T_now - T_last"
proof -
  have "(of_nat T_now :: u32) - of_nat T_last = of_nat (T_now - T_last)"
    using assms(1) by simp
  moreover have "unat (of_nat (T_now - T_last) :: u32) = T_now - T_last"
    using assms(2) by (simp add: unat_of_nat)
  ultimately show ?thesis by simp
qed

lemma debounce_update_true_time:
  assumes "T_last \<le> T_now" and "T_now - T_last < 2 ^ 32"
    and "last_update_ticks self = of_nat T_last"
  shows "fst (debounce_update self level (of_nat T_now)) =
     (if state self = DEBOUNCE_RISING \<and> raw_read level (inverted self) \<and>
         unat (press_delay_ticks self) \<le> T_now - T_last
      then DEBOUNCE_RISING_EDGE
      else if state self = DEBOUNCE_FALLING \<and> \<not> raw_read level (inverted self) \<and>
         unat (release_delay_ticks self) \<le> T_now - T_last
      then DEBOUNCE_FALLING_EDGE
      else DEBOUNCE_NO_EDGE)"
  using elapsed_true [OF assms(1,2)] assms(3)
  by (cases "state self")
     (simp_all add: step_LOW step_RISING step_HIGH step_FALLING word_le_nat_alt)

lemma update_true_time:
  assumes "T_last \<le> T_now" and "T_now - T_last < 2 ^ 32"
    and "last_change_time s = of_nat T_last" and "\<not> state_changed s"
  shows "state_changed (update s level (of_nat T_now)) =
     (read_raw_state s level = cur_state s \<and> cur_state s \<noteq> prev_stable_state s \<and>
      unat (delay_time s) < T_now - T_last)"
proof (cases "read_raw_state s level = cur_state s")
  case True
  with elapsed_true [OF assms(1,2)] assms(3,4) show ?thesis
    by (auto simp: update_same word_less_nat_alt)
next
  case False
  with assms(4) show ?thesis by (simp add: update_flip)
qed

lemma debounce_update_shift:
  "fst (debounce_update (self\<lparr>last_update_ticks := last_update_ticks self + k\<rparr>) level (now + k)) =
   fst (debounce_update self level now)"
  by (cases "state self") (simp_all add: debounce_update_def Let_def)

lemma update_shift:
  "state_changed (update (s\<lparr>last_change_time := last_change_time s + k\<rparr>) level (now + k)) =
   state_changed (update s level now) \<and>
   prev_stable_state (update (s\<lparr>last_change_time := last_change_time s + k\<rparr>) level (now + k)) =
   prev_stable_state (update s level now)"
  by (simp add: update_def Let_def read_raw_state_def)

text \<open>
  Claim C8. Both engines compute the elapsed time as the difference of two unsigned
  32-bit counter values, which wraps. Let the timer hold the true time \<open>T_last\<close> modulo
  \<open>2 ^ 32\<close> and let the clock read the true time \<open>T_now\<close> modulo \<open>2 ^ 32\<close>, with
  \<open>T_last \<le> T_now\<close> and less than \<open>2 ^ 32\<close> ticks between them; the counter may have
  wrapped in between, so that the value read is numerically below the timer.
  \<^item> \<^verbatim>\<open>debounce_update\<close> returns a rising (falling) edge exactly when it is in the
    tentative state, the level is still active (inactive) and the true elapsed time
    \<open>T_now - T_last\<close> is at least the press (release) window.
  \<^item> \<^verbatim>\<open>update\<close> confirms a change exactly when the level is unchanged, differs from the
    confirmed state and the true elapsed time exceeds \<^verbatim>\<open>delay_time\<close>.
  \<^item> Shifting the timer and the clock by the same amount \<open>k\<close>, across a wrap or not,
    changes neither decision.
\<close>

theorem elapsed_time_wraps_safely:
  "(T_last \<le> T_now \<and> T_now - T_last < 2 ^ 32 \<and> last_update_ticks self = of_nat T_last \<longrightarrow>
    fst (debounce_update self level (of_nat T_now)) =
     (if state self = DEBOUNCE_RISING \<and> raw_read level (inverted self) \<and>
         unat (press_delay_ticks self) \<le> T_now - T_last
      then DEBOUNCE_RISING_EDGE
      else if state self = DEBOUNCE_FALLING \<and> \<not> raw_read level (inverted self) \<and>
         unat (release_delay_ticks self) \<le> T_now - T_last
      then DEBOUNCE_FALLING_EDGE
      else DEBOUNCE_NO_EDGE))
   \<and>
   (T_last \<le> T_now \<and> T_now - T_last < 2 ^ 32 \<and> last_change_time s = of_nat T_last \<and>
    \<not> state_changed s \<longrightarrow>
    state_changed (update s level (of_nat T_now)) =
     (read_raw_state s level = cur_state s \<and> cur_state s \<noteq> prev_stable_state s \<and>
      unat (delay_time s) < T_now - T_last))
   \<and>
   fst (debounce_update (self\<lparr>last_update_ticks := last_update_ticks self + k\<rparr>) level (now + k)) =
     fst (debounce_update self level now)
   \<and>
   state_changed (update (s\<lparr>last_change_time := last_change_time s + k\<rparr>) level (now + k)) =
     state_changed (update s level now)"
  using debounce_update_true_time [of T_last T_now self level]
    update_true_time [of T_last T_now s level]
    debounce_update_shift [of self k level now] update_shift [of s k level now]
  by simp

theorem elapsed_time_wraps_safely_witness:
  "((4294967290 :: nat) \<le> 4294967346 \<and> (4294967346 :: nat) - 4294967290 < 2 ^ 32 \<and>
    last_update_ticks (snd (debounce_update (debounce_init (\<lambda>ms. ms) 4 True 50 20 0 True)
       False 4294967290)) = of_nat 4294967290 \<and>
    (of_nat 4294967346 :: u32) < of_nat 4294967290 \<and>
    fst (debounce_update
       (snd (debounce_update (debounce_init (\<lambda>ms. ms) 4 True 50 20 0 True) False 4294967290))
       False (of_nat 4294967346)) = DEBOUNCE_RISING_EDGE)
   \<and>
   (last_change_time (update (SoftwareDebounce_new 4 True 50 True) False 4294967290) =
      of_nat 4294967290 \<and>
    \<not> state_changed (update (SoftwareDebounce_new 4 True 50 True) False 4294967290) \<and>
    state_changed (update (update (SoftwareDebounce_new 4 True 50 True) False 4294967290)
      False (of_nat 4294967346)))"
  using elapsed_time_wraps_safely
    [where T_last = 4294967290 and T_now = 4294967346
       and self = "snd (debounce_update (debounce_init (\<lambda>ms. ms) 4 True 50 20 0 True)
                     False 4294967290)"
       and s = "update (SoftwareDebounce_new 4 True 50 True) False 4294967290"
       and level = False and k = 0 and now = 0]
  by (simp add: debounce_init_def debounce_update_def raw_read_def SoftwareDebounce_new_def
        update_def read_raw_state_def)

section \<open>Bounce rejection\<close>

lemma bounce_step_fsm:
  assumes "tracks_fsm self r t"
    and "case (if raw_read level (inverted self) \<noteq> r then Some now else t) of
           None \<Rightarrow> True
         | Some t0 \<Rightarrow> now - t0 < (if raw_read level (inverted self)
                                  then press_delay_ticks self else release_delay_ticks self)"
  shows "fst (debounce_update self level now) = DEBOUNCE_NO_EDGE \<and>
         tracks_fsm (snd (debounce_update self level now)) (raw_read level (inverted self))
           (if raw_read level (inverted self) \<noteq> r then Some now else t)"
  using assms
  by (cases "state self"; cases "raw_read level (inverted self)")
     (auto simp: tracks_fsm_def step_LOW step_RISING step_HIGH step_FALLING)

lemma no_edge_while_bouncing_fsm:
  "tracks_fsm self r t \<Longrightarrow>
   settles (press_delay_ticks self) (release_delay_ticks self) (inverted self) r t xs \<Longrightarrow>
   debounce_edges self xs = replicate (length xs) DEBOUNCE_NO_EDGE"
proof (induction xs arbitrary: self r t)
  case Nil
  show ?case by simp
next
  case (Cons x xs)
  obtain level now where x: "x = (level, now)" by (cases x)
  let ?r = "raw_read level (inverted self)"
  let ?t = "if ?r \<noteq> r then Some now else t"
  let ?self = "snd (debounce_update self level now)"
  from Cons.prems(2) have
    ok: "case ?t of None \<Rightarrow> True
         | Some t0 \<Rightarrow> now - t0 < (if ?r then press_delay_ticks self else release_delay_ticks self)"
    and rest: "settles (press_delay_ticks self) (release_delay_ticks self) (inverted self) ?r ?t xs"
    by (simp_all add: x Let_def)
  from bounce_step_fsm [OF Cons.prems(1) ok]
  have e: "fst (debounce_update self level now) = DEBOUNCE_NO_EDGE"
    and tr: "tracks_fsm ?self ?r ?t" by simp_all
  from rest debounce_update_config [of self level now]
  have "settles (press_delay_ticks ?self) (release_delay_ticks ?self) (inverted ?self) ?r ?t xs"
    by simp
  from Cons.IH [OF tr this] e show ?case by (simp add: x)
qed

lemma update_config:
  "inverted_sd (update s level now) = inverted_sd s \<and>
   delay_time (update s level now) = delay_time s"
  by (simp add: update_def Let_def)

lemma bounce_step_sd:
  assumes "tracks_sd s r t"
    and "case (if read_raw_state s level \<noteq> r then Some now else t) of
           None \<Rightarrow> True | Some t0 \<Rightarrow> now - t0 < delay_time s"
  shows "\<not> state_changed (update s level now) \<and>
         prev_stable_state (update s level now) = prev_stable_state s \<and>
         tracks_sd (update s level now) (read_raw_state s level)
           (if read_raw_state s level \<noteq> r then Some now else t)"
proof (cases "read_raw_state s level = cur_state s")
  case True
  with assms have "update s level now = s"
    by (auto simp: tracks_sd_def update_same)
  with assms True show ?thesis by (auto simp: tracks_sd_def)
next
  case False
  with assms show ?thesis by (simp add: tracks_sd_def update_flip)
qed

lemma no_edge_while_bouncing_sd:
  "tracks_sd s r t \<Longrightarrow>
   settles (delay_time s) (delay_time s) (inverted_sd s) r t xs \<Longrightarrow>
   poll_edges accs s xs = replicate (length xs) DEBOUNCE_NO_EDGE \<and>
   prev_stable_state (poll_final accs s xs) = prev_stable_state s \<and>
   \<not> state_changed (poll_final accs s xs)"
proof (induction xs arbitrary: s r t)
  case Nil
  then show ?case by (simp add: tracks_sd_def)
next
  case (Cons x xs)
  obtain level now where x: "x = (level, now)" by (cases x)
  have rr: "raw_read level (inverted_sd s) = read_raw_state s level"
    by (simp add: raw_read_def read_raw_state_def)
  let ?r = "read_raw_state s level"
  let ?t = "if ?r \<noteq> r then Some now else t"
  let ?s = "update s level now"
  from Cons.prems(2) have
    ok: "case ?t of None \<Rightarrow> True | Some t0 \<Rightarrow> now - t0 < delay_time s"
    and rest: "settles (delay_time s) (delay_time s) (inverted_sd s) ?r ?t xs"
    by (auto simp: x Let_def rr split: if_splits option.splits)
  from bounce_step_sd [OF Cons.prems(1) ok]
  have c: "\<not> state_changed ?s" and p: "prev_stable_state ?s = prev_stable_state s"
    and tr: "tracks_sd ?s ?r ?t" by simp_all
  from c have pl: "poll accs s level now = (DEBOUNCE_NO_EDGE, ?s)"
    by (rule poll_no_confirm)
  from rest update_config [of s level now]
  have "settles (delay_time ?s) (delay_time ?s) (inverted_sd ?s) ?r ?t xs" by simp
  from Cons.IH [OF tr this] pl p show ?case by (simp add: x)
qed

text \<open>
  Claim C6. Let an engine be in a confirmed state, and let the samples be such that at
  every sample the time elapsed since the most recent change of the polarity-corrected
  level is below the window (\<open>settles\<close>: the press window while the level is active, the
  release window while it is inactive; \<^verbatim>\<open>delay_time\<close> for both in the two-state engine).
  Then every call of \<^verbatim>\<open>debounce_update\<close> returns \<^verbatim>\<open>DEBOUNCE_NO_EDGE\<close>; and in the
  two-state engine no call of \<^verbatim>\<open>update\<close> confirms anything, so that a polling loop
  reports no edge through any accessors and the confirmed state stays what it was.
  A level that flips every 10 ticks under a window of 50 ticks is such a sequence.
\<close>

theorem bounce_rejected:
  "((state self = DEBOUNCE_LOW \<or> state self = DEBOUNCE_HIGH) \<and>
    settles (press_delay_ticks self) (release_delay_ticks self) (inverted self)
      (state self = DEBOUNCE_HIGH) None xs \<longrightarrow>
    debounce_edges self xs = replicate (length xs) DEBOUNCE_NO_EDGE)
   \<and>
   (\<not> state_changed s \<and> cur_state s = prev_stable_state s \<and>
    settles (delay_time s) (delay_time s) (inverted_sd s) (cur_state s) None xs' \<longrightarrow>
    poll_edges accs s xs' = replicate (length xs') DEBOUNCE_NO_EDGE \<and>
    prev_stable_state (poll_final accs s xs') = prev_stable_state s \<and>
    \<not> state_changed (poll_final accs s xs'))"
proof (rule conjI; rule impI)
  assume a: "(state self = DEBOUNCE_LOW \<or> state self = DEBOUNCE_HIGH) \<and>
    settles (press_delay_ticks self) (release_delay_ticks self) (inverted self)
      (state self = DEBOUNCE_HIGH) None xs"
  then have "tracks_fsm self (state self = DEBOUNCE_HIGH) None"
    by (auto simp: tracks_fsm_def)
  with a show "debounce_edges self xs = replicate (length xs) DEBOUNCE_NO_EDGE"
    by (simp add: no_edge_while_bouncing_fsm)
next
  assume a: "\<not> state_changed s \<and> cur_state s = prev_stable_state s \<and>
    settles (delay_time s) (delay_time s) (inverted_sd s) (cur_state s) None xs'"
  then have tr: "tracks_sd s (cur_state s) None"
    and st: "settles (delay_time s) (delay_time s) (inverted_sd s) (cur_state s) None xs'"
    by (auto simp: tracks_sd_def)
  from no_edge_while_bouncing_sd [OF tr st] show "poll_edges accs s xs' = replicate (length xs') DEBOUNCE_NO_EDGE \<and>
    prev_stable_state (poll_final accs s xs') = prev_stable_state s \<and>
    \<not> state_changed (poll_final accs s xs')" .
qed

theorem bounce_rejected_witness:
  "((state (debounce_init (\<lambda>ms. ms) 4 True 50 50 0 True) = DEBOUNCE_LOW \<or>
     state (debounce_init (\<lambda>ms. ms) 4 True 50 50 0 True) = DEBOUNCE_HIGH) \<and>
    settles 50 50 True False None
      [(False, 0), (False, 5), (True, 10), (True, 15), (False, 20), (False, 25),
       (True, 30), (True, 35), (False, 40), (False, 45), (True, 50), (True, 55),
       (False, 60), (False, 65)] \<and>
    debounce_edges (debounce_init (\<lambda>ms. ms) 4 True 50 50 0 True)
      [(False, 0), (False, 5), (True, 10), (True, 15), (False, 20), (False, 25),
       (True, 30), (True, 35), (False, 40), (False, 45), (True, 50), (True, 55),
       (False, 60), (False, 65)] =
      [DEBOUNCE_NO_EDGE, DEBOUNCE_NO_EDGE, DEBOUNCE_NO_EDGE, DEBOUNCE_NO_EDGE,
       DEBOUNCE_NO_EDGE, DEBOUNCE_NO_EDGE, DEBOUNCE_NO_EDGE, DEBOUNCE_NO_EDGE,
       DEBOUNCE_NO_EDGE, DEBOUNCE_NO_EDGE, DEBOUNCE_NO_EDGE, DEBOUNCE_NO_EDGE,
       DEBOUNCE_NO_EDGE, DEBOUNCE_NO_EDGE])
   \<and>
   (\<not> state_changed (SoftwareDebounce_new 4 True 50 True) \<and>
    cur_state (SoftwareDebounce_new 4 True 50 True) =
      prev_stable_state (SoftwareDebounce_new 4 True 50 True) \<and>
    poll_edges [GET_RISING_EDGE] (SoftwareDebounce_new 4 True 50 True)
      [(False, 0), (False, 5), (True, 10), (True, 15), (False, 20), (False, 25),
       (True, 30), (True, 35), (False, 40), (False, 45), (True, 50), (True, 55),
       (False, 60), (False, 65)] =
      [DEBOUNCE_NO_EDGE, DEBOUNCE_NO_EDGE, DEBOUNCE_NO_EDGE, DEBOUNCE_NO_EDGE,
       DEBOUNCE_NO_EDGE, DEBOUNCE_NO_EDGE, DEBOUNCE_NO_EDGE, DEBOUNCE_NO_EDGE,
       DEBOUNCE_NO_EDGE, DEBOUNCE_NO_EDGE, DEBOUNCE_NO_EDGE, DEBOUNCE_NO_EDGE,
       DEBOUNCE_NO_EDGE, DEBOUNCE_NO_EDGE])"
proof -
  have st: "settles 50 50 True False None
      [(False, 0), (False, 5), (True, 10), (True, 15), (False, 20), (False, 25),
       (True, 30), (True, 35), (False, 40), (False, 45), (True, 50), (True, 55),
       (False, 60), (False, 65)]"
    by (simp add: raw_read_def)
  from bounce_rejected
    [where self = "debounce_init (\<lambda>ms. ms) 4 True 50 50 0 True"
       and s = "SoftwareDebounce_new 4 True 50 True"
       and xs = "[(False, 0), (False, 5), (True, 10), (True, 15), (False, 20), (False, 25),
         (True, 30), (True, 35), (False, 40), (False, 45), (True, 50), (True, 55),
         (False, 60), (False, 65)]"
       and xs' = "[(False, 0), (False, 5), (True, 10), (True, 15), (False, 20), (False, 25),
         (True, 30), (True, 35), (False, 40), (False, 45), (True, 50), (True, 55),
         (False, 60), (False, 65)]"
       and accs = "[GET_RISING_EDGE]"] st
  show ?thesis
    by (simp add: debounce_init_def debounce_update_def SoftwareDebounce_new_def raw_read_def
          read_raw_state_def poll_def update_def call_accessor_def get_rising_edge_def
          get_changed_def)
qed

section \<open>The two engines compared\<close>

text \<open>
  One poll of corresponding engines: the two-state engine confirms a change exactly
  when the machine returns an edge, the new confirmed state tells which edge it is, and
  the engines correspond again once the flag has been cleared.
\<close>

lemma clear_flag_id: "\<not> state_changed s \<Longrightarrow> s\<lparr>state_changed := False\<rparr> = s"
  by simp

lemma sim_step:
  assumes "corresponds s self"
  shows "(state_changed (update s level now) \<longleftrightarrow>
            fst (debounce_update self level now) \<noteq> DEBOUNCE_NO_EDGE) \<and>
         (state_changed (update s level now) \<longrightarrow>
            fst (debounce_update self level now) =
              edge_of_accessor (accessor_of_state (prev_stable_state (update s level now)))) \<and>
         corresponds ((update s level now)\<lparr>state_changed := False\<rparr>)
           (snd (debounce_update self level now))"
proof -
  have rr: "read_raw_state s level = raw_read level (inverted self)"
    using assms by (simp add: corresponds_def read_raw_state_def raw_read_def)
  have nc: "\<not> state_changed s"
    using assms by (simp add: corresponds_def)
  have w: "\<And>x. delay_time s + 1 \<le> x \<longleftrightarrow> delay_time s < x"
    using assms by (simp add: corresponds_def inc_less_eq_iff)
  show ?thesis
  proof (cases "read_raw_state s level = cur_state s")
    case True
    with assms rr w show ?thesis
      by (cases "state self")
         (auto simp: corresponds_def update_same [OF nc True] step_LOW step_RISING step_HIGH
            step_FALLING edge_of_accessor_def accessor_of_state_def)
  next
    case False
    with assms rr show ?thesis
      by (cases "state self")
         (auto simp: corresponds_def update_flip [OF nc False] step_LOW step_RISING step_HIGH
            step_FALLING)
  qed
qed

lemma sim_poll:
  assumes "corresponds s self"
  shows "fst (poll (a # as) s level now) =
           only_edge (edge_of_accessor a) (fst (debounce_update self level now)) \<and>
         corresponds (snd (poll (a # as) s level now)) (snd (debounce_update self level now))"
proof (cases "state_changed (update s level now)")
  case True
  from sim_step [OF assms, of level now] True
  have e: "fst (debounce_update self level now) =
      edge_of_accessor (accessor_of_state (prev_stable_state (update s level now)))"
    and c: "corresponds ((update s level now)\<lparr>state_changed := False\<rparr>)
      (snd (debounce_update self level now))"
    by simp_all
  have "a = accessor_of_state (prev_stable_state (update s level now)) \<longleftrightarrow>
      edge_of_accessor a =
        edge_of_accessor (accessor_of_state (prev_stable_state (update s level now)))"
    by (cases a) (simp_all add: edge_of_accessor_def accessor_of_state_def)
  with e c True show ?thesis
    by (auto simp: poll_confirm only_edge_def)
next
  case False
  from sim_step [OF assms, of level now] False
  have e: "fst (debounce_update self level now) = DEBOUNCE_NO_EDGE"
    and c: "corresponds ((update s level now)\<lparr>state_changed := False\<rparr>)
      (snd (debounce_update self level now))"
    by simp_all
  from e c False show ?thesis
    by (simp add: poll_no_confirm only_edge_def clear_flag_id)
qed

lemma sim_run:
  "corresponds s self \<Longrightarrow>
   poll_edges (a # as) s xs = map (only_edge (edge_of_accessor a)) (debounce_edges self xs) \<and>
   corresponds (poll_final (a # as) s xs) (debounce_final self xs)"
proof (induction xs arbitrary: s self)
  case Nil
  then show ?case by simp
next
  case (Cons x xs)
  obtain level now where x: "x = (level, now)" by (cases x)
  from sim_poll [OF Cons.prems, of a as level now]
  have e: "fst (poll (a # as) s level now) =
      only_edge (edge_of_accessor a) (fst (debounce_update self level now))"
    and c: "corresponds (snd (poll (a # as) s level now)) (snd (debounce_update self level now))"
    by simp_all
  from Cons.IH [OF c] e show ?case by (simp add: x)
qed

lemma corresponds_new:
  "debounce_delay_time \<noteq> - 1 \<Longrightarrow>
   pdMS_TO_TICKS press_ms = debounce_delay_time + 1 \<Longrightarrow>
   pdMS_TO_TICKS release_ms = debounce_delay_time + 1 \<Longrightarrow>
   corresponds (SoftwareDebounce_new switch_pin is_inverted debounce_delay_time level)
     (debounce_init pdMS_TO_TICKS pin_no is_inverted press_ms release_ms t_init level)"
  by (simp add: corresponds_def SoftwareDebounce_new_def debounce_init_def read_raw_state_def
        raw_read_def)

text \<open>
  Claim C4, as amended. Let the engines correspond: same polarity, same logical state,
  the flag of the two-state engine clear, and both windows of the four-state machine
  equal to \<^verbatim>\<open>delay_time + 1\<close> (the two-state test is strict, the four-state test is
  inclusive). Poll the two-state engine with \<^verbatim>\<open>update()\<close> followed by accessor calls, the
  first of which is \<open>a\<close>, and feed both engines the same samples. Then at every poll the
  two-state loop reports the edge returned by \<^verbatim>\<open>debounce_update\<close> when that edge is of
  the kind of \<open>a\<close> (\<^verbatim>\<open>get_rising_edge\<close>: rising, \<^verbatim>\<open>get_falling_edge\<close>: falling) and no edge
  otherwise: an edge of the other kind is confirmed at the same poll and consumed
  unreported. The engines correspond again after the run. Engines made by the two
  constructors from the same initial level, with such windows, correspond.
\<close>

theorem engines_agree_on_polled_edge_kind:
  "(corresponds s self \<longrightarrow>
    poll_edges (a # as) s xs = map (only_edge (edge_of_accessor a)) (debounce_edges self xs) \<and>
    corresponds (poll_final (a # as) s xs) (debounce_final self xs))
   \<and>
   (debounce_delay_time \<noteq> - 1 \<and> pdMS_TO_TICKS press_ms = debounce_delay_time + 1 \<and>
    pdMS_TO_TICKS release_ms = debounce_delay_time + 1 \<longrightarrow>
    corresponds (SoftwareDebounce_new switch_pin is_inverted debounce_delay_time level)
      (debounce_init pdMS_TO_TICKS pin_no is_inverted press_ms release_ms t_init level))"
  using sim_run [of s self a as xs]
    corresponds_new [of debounce_delay_time pdMS_TO_TICKS press_ms release_ms switch_pin
      is_inverted level pin_no t_init]
  by blast

theorem engines_agree_on_polled_edge_kind_witness:
  "corresponds (SoftwareDebounce_new 4 True 50 True) (debounce_init (\<lambda>ms. ms) 4 True 51 51 0 True) \<and>
   (50 :: u32) \<noteq> - 1 \<and> (\<lambda>ms. ms) (51 :: u32) = 50 + 1 \<and>
   poll_edges [GET_RISING_EDGE] (SoftwareDebounce_new 4 True 50 True)
     [(False, 0), (False, 50), (False, 51), (True, 60), (True, 120), (False, 130), (False, 200)] =
   map (only_edge DEBOUNCE_RISING_EDGE)
     (debounce_edges (debounce_init (\<lambda>ms. ms) 4 True 51 51 0 True)
       [(False, 0), (False, 50), (False, 51), (True, 60), (True, 120), (False, 130), (False, 200)]) \<and>
   debounce_edges (debounce_init (\<lambda>ms. ms) 4 True 51 51 0 True)
     [(False, 0), (False, 50), (False, 51), (True, 60), (True, 120), (False, 130), (False, 200)] =
     [DEBOUNCE_NO_EDGE, DEBOUNCE_NO_EDGE, DEBOUNCE_RISING_EDGE, DEBOUNCE_NO_EDGE,
      DEBOUNCE_FALLING_EDGE, DEBOUNCE_NO_EDGE, DEBOUNCE_RISING_EDGE]"
proof -
  have n: "(50 :: u32) \<noteq> - 1 \<and> (\<lambda>ms. ms) (51 :: u32) = 50 + 1 \<and> (\<lambda>ms. ms) (51 :: u32) = 50 + 1"
    by simp
  have c: "corresponds (SoftwareDebounce_new 4 True 50 True)
      (debounce_init (\<lambda>ms. ms) 4 True 51 51 0 True)"
    using engines_agree_on_polled_edge_kind
      [where debounce_delay_time = 50 and pdMS_TO_TICKS = "\<lambda>ms. ms" and press_ms = 51
         and release_ms = 51 and switch_pin = 4 and is_inverted = True and level = True
         and pin_no = 4 and t_init = 0] n
    by blast
  have e: "debounce_edges (debounce_init (\<lambda>ms. ms) 4 True 51 51 0 True)
     [(False, 0), (False, 50), (False, 51), (True, 60), (True, 120), (False, 130), (False, 200)] =
     [DEBOUNCE_NO_EDGE, DEBOUNCE_NO_EDGE, DEBOUNCE_RISING_EDGE, DEBOUNCE_NO_EDGE,
      DEBOUNCE_FALLING_EDGE, DEBOUNCE_NO_EDGE, DEBOUNCE_RISING_EDGE]"
    by (simp add: debounce_init_def debounce_update_def raw_read_def)
  from engines_agree_on_polled_edge_kind
      [where s = "SoftwareDebounce_new 4 True 50 True"
         and self = "debounce_init (\<lambda>ms. ms) 4 True 51 51 0 True"
         and a = GET_RISING_EDGE and as = "[]"
         and xs = "[(False, 0), (False, 50), (False, 51), (True, 60), (True, 120), (False, 130),
                    (False, 200)]"] c
  have "poll_edges [GET_RISING_EDGE] (SoftwareDebounce_new 4 True 50 True)
     [(False, 0), (False, 50), (False, 51), (True, 60), (True, 120), (False, 130), (False, 200)] =
   map (only_edge DEBOUNCE_RISING_EDGE)
     (debounce_edges (debounce_init (\<lambda>ms. ms) 4 True 51 51 0 True)
       [(False, 0), (False, 50), (False, 51), (True, 60), (True, 120), (False, 130), (False, 200)])"
    by (simp add: edge_of_accessor_def)
  with c e show ?thesis by simp
qed

text \<open>
  Claim C4 as stated fails. With all windows equal to 50 and the same initial level:
  an active level seen at times 0 and 50 gives a rising edge in the four-state engine
  and none in the two-state engine, in either order of the accessors; and on a press
  followed by a release the four-state engine returns both edges, while the two-state
  loop reports only the edge of the accessor it calls first.
\<close>

theorem engines_differ_counterexample:
  "debounce_edges (debounce_init (\<lambda>ms. ms) 4 True 50 50 0 True) [(False, 0), (False, 50)] =
     [DEBOUNCE_NO_EDGE, DEBOUNCE_RISING_EDGE] \<and>
   poll_edges [GET_RISING_EDGE, GET_FALLING_EDGE] (SoftwareDebounce_new 4 True 50 True)
     [(False, 0), (False, 50)] = [DEBOUNCE_NO_EDGE, DEBOUNCE_NO_EDGE] \<and>
   poll_edges [GET_FALLING_EDGE, GET_RISING_EDGE] (SoftwareDebounce_new 4 True 50 True)
     [(False, 0), (False, 50)] = [DEBOUNCE_NO_EDGE, DEBOUNCE_NO_EDGE] \<and>
   debounce_edges (debounce_init (\<lambda>ms. ms) 4 True 50 50 0 True)
     [(False, 0), (False, 51), (True, 60), (True, 120)] =
     [DEBOUNCE_NO_EDGE, DEBOUNCE_RISING_EDGE, DEBOUNCE_NO_EDGE, DEBOUNCE_FALLING_EDGE] \<and>
   poll_edges [GET_RISING_EDGE, GET_FALLING_EDGE] (SoftwareDebounce_new 4 True 50 True)
     [(False, 0), (False, 51), (True, 60), (True, 120)] =
     [DEBOUNCE_NO_EDGE, DEBOUNCE_RISING_EDGE, DEBOUNCE_NO_EDGE, DEBOUNCE_NO_EDGE] \<and>
   poll_edges [GET_FALLING_EDGE, GET_RISING_EDGE] (SoftwareDebounce_new 4 True 50 True)
     [(False, 0), (False, 51), (True, 60), (True, 120)] =
     [DEBOUNCE_NO_EDGE, DEBOUNCE_NO_EDGE, DEBOUNCE_NO_EDGE, DEBOUNCE_FALLING_EDGE]"
  by (simp add: debounce_init_def debounce_update_def raw_read_def SoftwareDebounce_new_def
        poll_def update_def read_raw_state_def call_accessor_def get_rising_edge_def
        get_falling_edge_def get_changed_def edge_of_accessor_def)

end
